theory Spec2Isabelle
  imports Complex_Main "HOL-Library.AList" "HOL-Library.Product_Lexorder" "HOL-Library.Multiset"
begin

section \<open>Data model of \<^verbatim>\<open>infrast.py\<close>\<close>

text \<open>
  Strings are byte lists holding the UTF-8 encoding of the Python strings; equality and
  the substring test \<^verbatim>\<open>a in b\<close> agree on code points and on their UTF-8 bytes.
  Python's floats (efficiencies) are modelled as exact rationals, Python's ints as \<open>int\<close>.
  Every exception the modelled code can raise is a value of \<open>error\<close>.
\<close>

datatype error = KeyError | ValueError | ZeroDivisionError | IndexError

record Operator =
  op_id :: string
  op_name :: string
  op_elite :: int
  op_level :: int
  op_own :: bool
  op_potential :: int
  op_rarity :: int

text \<open>\<^verbatim>\<open>ControlCenterRequirement\<close>, \<^verbatim>\<open>DormitoryRequirement\<close> and
  \<^verbatim>\<open>PowerStationRequirement\<close> are three dataclasses of one shape.\<close>

record Requirement =
  req_operator :: string
  elite_required :: int

type_synonym ControlCenterRequirement = Requirement
type_synonym DormitoryRequirement = Requirement
type_synonym PowerStationRequirement = Requirement

record OperatorEfficiency =
  operators :: "string list"
  workplace_type :: string
  base_efficiency :: rat
  synergy_efficiency :: rat
  description :: string
  elite_requirements :: "(string \<times> int) list"
  requires_control_center :: "ControlCenterRequirement list"
  requires_dormitory :: "DormitoryRequirement list"
  requires_power_station :: "PowerStationRequirement list"
  special_conditions :: "string option"
  apply_each :: bool
  priority :: int
  products :: "string list"

record Workplace =
  wp_id :: string
  wp_name :: string
  max_operators :: int
  wp_base_efficiency :: rat
  wp_products :: "string list"
  current_product :: string

record AssignmentResult =
  workplace :: Workplace
  optimal_operators :: "Operator list"
  total_efficiency :: rat
  operator_efficiency :: rat
  applied_combinations :: "string list"
  control_center_requirements :: "ControlCenterRequirement list"
  dormitory_requirements :: "DormitoryRequirement list"
  power_station_requirements :: "PowerStationRequirement list"

subsection \<open>The raw rule specification (\<^verbatim>\<open>efficiency_data['combination_rules']\<close>)\<close>

text \<open>A JSON object is an association list in document order; an absent key is \<open>None\<close>.\<close>

datatype product_field = PStr string | PList "string list"

record rule_data =
  rd_combo :: "string list option"
  rd_efficiency :: "rat option"
  rd_control_center :: "string list option"
  rd_dormitory :: "string list option"
  rd_power_station :: "string list option"
  rd_apply_each :: "bool option"
  rd_priority :: "int option"
  rd_product :: "product_field option"

record system_dict =
  sd_base_combo :: "string list option"
  sd_product :: "product_field option"
  sd_rules :: "rule_data list option"

datatype system_data = RuleList "rule_data list" | SystemDict system_dict | OtherData

type_synonym combination_rules = "(string \<times> (string \<times> system_data) list) list"

section \<open>String helpers of the Python runtime\<close>

fun startswith :: "string \<Rightarrow> string \<Rightarrow> bool" where
  "startswith s [] = True"
| "startswith [] (p # ps) = False"
| "startswith (c # cs) (p # ps) = (c = p \<and> startswith cs ps)"

text \<open>\<open>contains sub s\<close> is Python's \<^verbatim>\<open>sub in s\<close>.\<close>

fun contains :: "string \<Rightarrow> string \<Rightarrow> bool" where
  "contains sub [] = (sub = [])"
| "contains sub (c # cs) = (startswith (c # cs) sub \<or> contains sub cs)"

text \<open>\<open>join sep xs\<close> is \<^verbatim>\<open>sep.join(xs)\<close>.\<close>

fun join :: "string \<Rightarrow> string list \<Rightarrow> string" where
  "join sep [] = []"
| "join sep [x] = x"
| "join sep (x # y # ys) = x @ sep @ join sep (y # ys)"

definition is_space :: "char \<Rightarrow> bool" where
  "is_space c =
     (c = CHR 0x20 \<or> c = CHR 0x09 \<or> c = CHR 0x0A \<or> c = CHR 0x0B \<or> c = CHR 0x0C \<or> c = CHR 0x0D)"

text \<open>\<^verbatim>\<open>str.strip()\<close>, over the ASCII whitespace characters.\<close>

definition strip :: "string \<Rightarrow> string" where
  "strip s = rev (dropWhile is_space (rev (dropWhile is_space s)))"

definition digit_val :: "char \<Rightarrow> int option" where
  "digit_val c =
     (let v = (of_char c :: nat) in if 48 \<le> v \<and> v \<le> 57 then Some (int v - 48) else None)"

fun digits_val :: "int \<Rightarrow> string \<Rightarrow> int option" where
  "digits_val acc [] = Some acc"
| "digits_val acc (c # cs) =
     (case digit_val c of None \<Rightarrow> None | Some d \<Rightarrow> digits_val (10 * acc + d) cs)"

text \<open>\<^verbatim>\<open>int(s)\<close> on a stripped string: an optional sign and decimal digits;
  anything else raises \<^verbatim>\<open>ValueError\<close>.\<close>

definition signed_digits :: "bool \<Rightarrow> string \<Rightarrow> error + int" where
  "signed_digits negative ds =
     (if ds = [] then Inl ValueError
      else case digits_val 0 ds of
             None \<Rightarrow> Inl ValueError
           | Some v \<Rightarrow> Inr (if negative then - v else v))"

definition py_int :: "string \<Rightarrow> error + int" where
  "py_int s =
     (case s of
        [] \<Rightarrow> Inl ValueError
      | c # cs \<Rightarrow>
          (if c = CHR ''-'' then signed_digits True cs
           else if c = CHR ''+'' then signed_digits False cs
           else signed_digits False (c # cs)))"

section \<open>The rule compiler: \<^verbatim>\<open>load_efficiency_rules\<close>\<close>

text \<open>\<^verbatim>\<open>parse_operator_string\<close>: a token \<^verbatim>\<open>name\<close> or \<^verbatim>\<open>name/tier\<close>,
  split at the first slash.\<close>

definition parse_operator_string :: "string \<Rightarrow> error + (string \<times> int)" where
  "parse_operator_string op_str =
     (if CHR ''/'' \<in> set op_str then
        (let name = takeWhile (\<lambda>c. c \<noteq> CHR ''/'') op_str;
             elite_str = tl (dropWhile (\<lambda>c. c \<noteq> CHR ''/'') op_str)
         in case py_int (strip elite_str) of
              Inl e \<Rightarrow> Inl e
            | Inr elite \<Rightarrow> Inr (strip name, elite))
      else Inr (strip op_str, 0))"

text \<open>The loop over a combo: names are appended, and a positive tier is stored in the
  dictionary of tier overrides (a later token of the same name overwrites the value).\<close>

fun parse_combo ::
  "string list \<Rightarrow> string list \<times> (string \<times> int) list \<Rightarrow> error + (string list \<times> (string \<times> int) list)"
where
  "parse_combo [] acc = Inr acc"
| "parse_combo (op_str # rest) (ops, reqs) =
     (case parse_operator_string op_str of
        Inl e \<Rightarrow> Inl e
      | Inr (name, elite) \<Rightarrow>
          parse_combo rest (ops @ [name], if elite > 0 then AList.update name elite reqs else reqs))"

fun parse_requirements :: "string list \<Rightarrow> error + Requirement list" where
  "parse_requirements [] = Inr []"
| "parse_requirements (s # rest) =
     (case parse_operator_string s of
        Inl e \<Rightarrow> Inl e
      | Inr (name, elite) \<Rightarrow>
          (case parse_requirements rest of
             Inl e \<Rightarrow> Inl e
           | Inr reqs \<Rightarrow> Inr (\<lparr>req_operator = name, elite_required = elite\<rparr> # reqs)))"

definition parse_optional_requirements :: "string list option \<Rightarrow> error + Requirement list" where
  "parse_optional_requirements field =
     (case field of None \<Rightarrow> Inr [] | Some strs \<Rightarrow> parse_requirements strs)"

definition products_of :: "product_field \<Rightarrow> string list" where
  "products_of p = (case p of PStr s \<Rightarrow> [s] | PList l \<Rightarrow> l)"

text \<open>The name of the generic group (the two-character literal compared with
  \<^verbatim>\<open>system_name ==\<close> in \<^verbatim>\<open>optimize_workplace\<close>) and the four-character description
  given to every \<^verbatim>\<open>apply_each\<close> rule of a flat list, which starts with it: as UTF-8 bytes.\<close>

definition generic_name :: string where
  "generic_name = [CHR 0xE9, CHR 0x80, CHR 0x9A, CHR 0xE7, CHR 0x94, CHR 0xA8]"

definition generic_single_name :: string where
  "generic_single_name = generic_name @ [CHR 0xE5, CHR 0x8D, CHR 0x95, CHR 0xE4, CHR 0xBA, CHR 0xBA]"

text \<open>One rule of a flat rule list (\<^verbatim>\<open>isinstance(system_data, list)\<close>). The fields are read
  in the order of the source: \<^verbatim>\<open>combo\<close> (mandatory), the three requirement lists, and
  \<^verbatim>\<open>efficiency\<close> (mandatory) when the rule object is built.\<close>

definition expand_list_rule :: "string \<Rightarrow> string \<Rightarrow> rule_data \<Rightarrow> error + OperatorEfficiency" where
  "expand_list_rule wtype system_name rd =
     (case rd_combo rd of
        None \<Rightarrow> Inl KeyError
      | Some combo \<Rightarrow>
     (case parse_combo combo ([], []) of
        Inl e \<Rightarrow> Inl e
      | Inr (ops, ereqs) \<Rightarrow>
     (case parse_optional_requirements (rd_control_center rd) of
        Inl e \<Rightarrow> Inl e
      | Inr cc \<Rightarrow>
     (case parse_optional_requirements (rd_dormitory rd) of
        Inl e \<Rightarrow> Inl e
      | Inr dorm \<Rightarrow>
     (case parse_optional_requirements (rd_power_station rd) of
        Inl e \<Rightarrow> Inl e
      | Inr pow \<Rightarrow>
     (case rd_efficiency rd of
        None \<Rightarrow> Inl KeyError
      | Some eff \<Rightarrow>
          Inr \<lparr>operators = ops,
               workplace_type = wtype,
               base_efficiency = 0,
               synergy_efficiency = eff,
               description =
                 (if rd_apply_each rd = Some True then generic_single_name
                  else system_name @ '' - '' @ join '', '' ops),
               elite_requirements = ereqs,
               requires_control_center = cc,
               requires_dormitory = dorm,
               requires_power_station = pow,
               special_conditions = None,
               apply_each = (rd_apply_each rd = Some True),
               priority = (case rd_priority rd of None \<Rightarrow> 0 | Some p \<Rightarrow> p),
               products = (case rd_product rd of None \<Rightarrow> [] | Some p \<Rightarrow> products_of p)\<rparr>))))))"

text \<open>One sub-rule of a structured system with a shared base combination: the combo is
  optional and is parsed on top of the base names and base overrides.\<close>

definition expand_system_rule ::
  "string \<Rightarrow> string \<Rightarrow> string list \<times> (string \<times> int) list \<Rightarrow> string list \<Rightarrow> rule_data
     \<Rightarrow> error + OperatorEfficiency"
where
  "expand_system_rule wtype system_name base base_products rd =
     (case parse_combo (case rd_combo rd of None \<Rightarrow> [] | Some c \<Rightarrow> c) base of
        Inl e \<Rightarrow> Inl e
      | Inr (ops, ereqs) \<Rightarrow>
     (case parse_optional_requirements (rd_control_center rd) of
        Inl e \<Rightarrow> Inl e
      | Inr cc \<Rightarrow>
     (case parse_optional_requirements (rd_dormitory rd) of
        Inl e \<Rightarrow> Inl e
      | Inr dorm \<Rightarrow>
     (case parse_optional_requirements (rd_power_station rd) of
        Inl e \<Rightarrow> Inl e
      | Inr pow \<Rightarrow>
     (case rd_efficiency rd of
        None \<Rightarrow> Inl KeyError
      | Some eff \<Rightarrow>
          Inr \<lparr>operators = ops,
               workplace_type = wtype,
               base_efficiency = 0,
               synergy_efficiency = eff,
               description = system_name @ '' - '' @ join '', '' ops,
               elite_requirements = ereqs,
               requires_control_center = cc,
               requires_dormitory = dorm,
               requires_power_station = pow,
               special_conditions = None,
               apply_each = (rd_apply_each rd = Some True),
               priority = (case rd_priority rd of None \<Rightarrow> 0 | Some p \<Rightarrow> p),
               products = (case rd_product rd of None \<Rightarrow> base_products | Some p \<Rightarrow> products_of p)\<rparr>)))))"

text \<open>Running a fallible step over a list and collecting the results stops at the first
  error, as the exception would.\<close>

fun collect :: "('a \<Rightarrow> error + 'b) \<Rightarrow> 'a list \<Rightarrow> error + 'b list" where
  "collect f [] = Inr []"
| "collect f (x # xs) =
     (case f x of
        Inl e \<Rightarrow> Inl e
      | Inr y \<Rightarrow> (case collect f xs of Inl e \<Rightarrow> Inl e | Inr ys \<Rightarrow> Inr (y # ys)))"

definition expand_system :: "string \<Rightarrow> string \<times> system_data \<Rightarrow> error + OperatorEfficiency list" where
  "expand_system wtype entry =
     (case entry of (system_name, system_data) \<Rightarrow>
        (case system_data of
           RuleList rds \<Rightarrow> collect (expand_list_rule wtype system_name) rds
         | SystemDict sd \<Rightarrow>
             (let base_products = (case sd_product sd of None \<Rightarrow> [] | Some p \<Rightarrow> products_of p)
              in case parse_combo (case sd_base_combo sd of None \<Rightarrow> [] | Some c \<Rightarrow> c) ([], []) of
                   Inl e \<Rightarrow> Inl e
                 | Inr base \<Rightarrow>
                     collect (expand_system_rule wtype system_name base base_products)
                       (case sd_rules sd of None \<Rightarrow> [] | Some rs \<Rightarrow> rs))
         | OtherData \<Rightarrow> Inr []))"

definition expand_rules :: "combination_rules \<Rightarrow> error + OperatorEfficiency list" where
  "expand_rules cr =
     (case collect (\<lambda>(wtype, systems).
               case collect (expand_system wtype) systems of
                 Inl e \<Rightarrow> Inl e
               | Inr rss \<Rightarrow> Inr (concat rss)) cr of
        Inl e \<Rightarrow> Inl e
      | Inr rss \<Rightarrow> Inr (concat rss))"

text \<open>\<^verbatim>\<open>list.sort(key=f, reverse=True)\<close>: a stable sort into descending key order. The
  element inserted comes before the elements already placed in the original list, so it
  goes in front of the first one whose key is not larger.\<close>

fun insort_reverse :: "('a \<Rightarrow> 'k::linorder) \<Rightarrow> 'a \<Rightarrow> 'a list \<Rightarrow> 'a list" where
  "insort_reverse f x [] = [x]"
| "insort_reverse f x (y # ys) = (if f x < f y then y # insort_reverse f x ys else x # y # ys)"

definition sort_reverse :: "('a \<Rightarrow> 'k::linorder) \<Rightarrow> 'a list \<Rightarrow> 'a list" where
  "sort_reverse f xs = foldr (insort_reverse f) xs []"

definition rule_key :: "OperatorEfficiency \<Rightarrow> int \<times> rat" where
  "rule_key r = (priority r, synergy_efficiency r)"

definition load_efficiency_rules :: "combination_rules \<Rightarrow> error + OperatorEfficiency list" where
  "load_efficiency_rules cr =
     (case expand_rules cr of
        Inl e \<Rightarrow> Inl e
      | Inr expanded_rules \<Rightarrow> Inr (sort_reverse rule_key expanded_rules))"

section \<open>The optimizer object and the eligibility checks\<close>

record Workplaces =
  trading_stations :: "Workplace list"
  manufacturing_stations :: "Workplace list"
  meeting_room :: "Workplace list"
  power_station :: "Workplace list"

record ProductRequirements =
  pr_trading_stations :: "(string \<times> int) list"
  pr_manufacturing_stations :: "(string \<times> int) list"

text \<open>\<^verbatim>\<open>config_data\<close>: the \<^verbatim>\<open>enable\<close> flag of the \<^verbatim>\<open>Fiammetta\<close> entry (false when
  absent) and the optional \<^verbatim>\<open>product_requirements\<close>.\<close>

record Config =
  cfg_fiammetta_enable :: bool
  cfg_product_requirements :: "ProductRequirements option"

text \<open>The fields of \<^verbatim>\<open>WorkplaceOptimizer\<close> that the allocation reads. \<open>self_operators\<close> is
  the dictionary \<^verbatim>\<open>self.operators\<close> from names to operators, in insertion order.\<close>

record WorkplaceOptimizer =
  efficiency_data :: combination_rules
  config_data :: Config
  self_operators :: "(string \<times> Operator) list"
  efficiency_rules :: "OperatorEfficiency list"
  workplaces :: Workplaces
  fiammetta_targets :: "string list"

definition load_operators :: "Operator list \<Rightarrow> (string \<times> Operator) list" where
  "load_operators operator_data = foldl (\<lambda>d op. AList.update (op_name op) op d) [] operator_data"

text \<open>\<^verbatim>\<open>__init__\<close>, after the files are read; the workplaces are taken as loaded.\<close>

definition init ::
  "combination_rules \<Rightarrow> Operator list \<Rightarrow> Config \<Rightarrow> Workplaces \<Rightarrow> error + WorkplaceOptimizer"
where
  "init cr operator_data cfg wps =
     (case load_efficiency_rules cr of
        Inl e \<Rightarrow> Inl e
      | Inr rules \<Rightarrow>
          Inr \<lparr>efficiency_data = cr,
               config_data = cfg,
               self_operators = load_operators operator_data,
               efficiency_rules = rules,
               workplaces = wps,
               fiammetta_targets = []\<rparr>)"

definition get_available_operators :: "WorkplaceOptimizer \<Rightarrow> Operator list" where
  "get_available_operators self = filter op_own (map snd (self_operators self))"

text \<open>A dictionary comprehension \<^verbatim>\<open>{op.name: op for op in ops}\<close>: the last operator of a
  name wins.\<close>

definition by_name :: "Operator list \<Rightarrow> (string \<rightharpoonup> Operator)" where
  "by_name ops = map_of (rev (map (\<lambda>op. (op_name op, op)) ops))"

definition check_elite_requirements :: "Operator list \<Rightarrow> (string \<times> int) list \<Rightarrow> bool" where
  "check_elite_requirements ops ereqs =
     list_all (\<lambda>(name, required_elite).
        case by_name ops name of
          None \<Rightarrow> True
        | Some op \<Rightarrow> \<not> op_elite op < required_elite) ereqs"

definition check_requirement :: "WorkplaceOptimizer \<Rightarrow> Requirement \<Rightarrow> bool" where
  "check_requirement self req =
     (case map_of (self_operators self) (req_operator req) of
        None \<Rightarrow> False
      | Some op \<Rightarrow> \<not> (\<not> op_own op \<or> op_elite op < elite_required req))"

definition check_control_center_requirements ::
  "WorkplaceOptimizer \<Rightarrow> ControlCenterRequirement list \<Rightarrow> bool" where
  "check_control_center_requirements self reqs = list_all (check_requirement self) reqs"

definition check_dormitory_requirements ::
  "WorkplaceOptimizer \<Rightarrow> DormitoryRequirement list \<Rightarrow> bool" where
  "check_dormitory_requirements self reqs = list_all (check_requirement self) reqs"

definition check_power_station_requirements ::
  "WorkplaceOptimizer \<Rightarrow> PowerStationRequirement list \<Rightarrow> bool" where
  "check_power_station_requirements self reqs = list_all (check_requirement self) reqs"

text \<open>The four-character name of the operator Fiammetta in the source, as UTF-8 bytes.\<close>

definition fiammetta_name :: string where
  "fiammetta_name =
     [CHR 0xE8, CHR 0x8F, CHR 0xB2, CHR 0xE4, CHR 0xBA, CHR 0x9A,
      CHR 0xE6, CHR 0xA2, CHR 0x85, CHR 0xE5, CHR 0xA1, CHR 0x94]"

definition check_fiammetta_available :: "WorkplaceOptimizer \<Rightarrow> bool" where
  "check_fiammetta_available self =
     (case map_of (self_operators self) fiammetta_name of
        None \<Rightarrow> False
      | Some op \<Rightarrow> op_own op \<and> op_elite op \<ge> 2)"

definition get_workplace_type :: "Workplace \<Rightarrow> string" where
  "get_workplace_type w =
     (if contains ''trading'' (wp_id w) then ''trading_station''
      else if contains ''manufacturing'' (wp_id w) then ''manufacturing_station''
      else if contains ''meeting'' (wp_id w) then ''meeting_room''
      else if contains ''power'' (wp_id w) then ''power_station''
      else takeWhile (\<lambda>c. c \<noteq> CHR ''_'') (wp_id w) @ ''_'' @ ''_station'')"

section \<open>The greedy allocator: \<^verbatim>\<open>optimize_workplace\<close>\<close>

text \<open>The mutable state of one allocator call. \<open>operator_usage\<close> and
  \<open>shift_used_names\<close> are the caller's objects, mutated in place.\<close>

record alloc_state =
  operator_usage :: "string \<rightharpoonup> int"
  shift_used_names :: "string set"
  assigned_ops :: "Operator list"
  used_names :: "string set"
  remaining_slots :: int
  total_synergy :: rat
  applied :: "string list"
  applied_control_center_reqs :: "ControlCenterRequirement list"
  applied_dormitory_reqs :: "DormitoryRequirement list"
  applied_power_station_reqs :: "PowerStationRequirement list"

datatype candidate_type = System | GenericEach | Generic | Each | Normal

record candidate =
  c_type :: candidate_type
  c_rule :: OperatorEfficiency
  c_required :: "string list"
  c_efficiency :: rat
  c_slots_used :: int

text \<open>\<^verbatim>\<open>best_candidate\<close> and \<^verbatim>\<open>best_efficiency\<close>.\<close>

type_synonym best = "candidate option \<times> rat"

fun fold_err :: "('b \<Rightarrow> 'a \<Rightarrow> error + 'b) \<Rightarrow> 'a list \<Rightarrow> 'b \<Rightarrow> error + 'b" where
  "fold_err f [] b = Inr b"
| "fold_err f (x # xs) b = (case f b x of Inl e \<Rightarrow> Inl e | Inr b' \<Rightarrow> fold_err f xs b')"

definition rule_matches_products :: "Workplace \<Rightarrow> OperatorEfficiency \<Rightarrow> bool" where
  "rule_matches_products w rule = (products rule = [] \<or> current_product w \<in> set (products rule))"

definition all_rules :: "WorkplaceOptimizer \<Rightarrow> Workplace \<Rightarrow> OperatorEfficiency list" where
  "all_rules self w =
     filter (\<lambda>r. workplace_type r = get_workplace_type w \<and> rule_matches_products w r)
       (efficiency_rules self)"

definition max_usage :: "WorkplaceOptimizer \<Rightarrow> string \<Rightarrow> string \<Rightarrow> int" where
  "max_usage self wtype name =
     (if name \<in> set (fiammetta_targets self) \<and> wtype = ''trading_station'' then 3 else 2)"

text \<open>\<^verbatim>\<open>operator_usage.get(name, 0)\<close>.\<close>

definition usage_get :: "(string \<rightharpoonup> int) \<Rightarrow> string \<Rightarrow> int" where
  "usage_get u name = (case u name of None \<Rightarrow> 0 | Some c \<Rightarrow> c)"

text \<open>The availability test of an operator name, the same four conditions on every path.\<close>

definition unavailable ::
  "WorkplaceOptimizer \<Rightarrow> string \<Rightarrow> (string \<rightharpoonup> Operator) \<Rightarrow> alloc_state \<Rightarrow> string \<Rightarrow> bool"
where
  "unavailable self wtype op_by_name s name =
     (op_by_name name = None \<or> name \<in> used_names s \<or> name \<in> shift_used_names s \<or>
      usage_get (operator_usage s) name \<ge> max_usage self wtype name)"

text \<open>\<^verbatim>\<open>[op_by_name[n] for n in required]\<close>.\<close>

definition lookup_ops :: "(string \<rightharpoonup> Operator) \<Rightarrow> string list \<Rightarrow> error + Operator list" where
  "lookup_ops op_by_name required =
     collect (\<lambda>n. case op_by_name n of None \<Rightarrow> Inl KeyError | Some op \<Rightarrow> Inr op) required"

text \<open>The system of a rule: the first key of the category's systems that occurs in the
  rule's description, the generic name when none does.\<close>

definition system_keys :: "WorkplaceOptimizer \<Rightarrow> string \<Rightarrow> string list" where
  "system_keys self wtype =
     (case map_of (efficiency_data self) wtype of None \<Rightarrow> [] | Some systems \<Rightarrow> map fst systems)"

definition system_name_of :: "WorkplaceOptimizer \<Rightarrow> string \<Rightarrow> OperatorEfficiency \<Rightarrow> string" where
  "system_name_of self wtype rule =
     (case find (\<lambda>sys_key. contains sys_key (description rule)) (system_keys self wtype) of
        None \<Rightarrow> generic_name
      | Some sys_key \<Rightarrow> sys_key)"

fun add_to_group :: "string \<Rightarrow> 'a \<Rightarrow> (string \<times> 'a list) list \<Rightarrow> (string \<times> 'a list) list" where
  "add_to_group k r [] = [(k, [r])]"
| "add_to_group k r ((k', rs) # g) =
     (if k = k' then (k', rs @ [r]) # g else (k', rs) # add_to_group k r g)"

definition system_groups ::
  "WorkplaceOptimizer \<Rightarrow> Workplace \<Rightarrow> (string \<times> OperatorEfficiency list) list" where
  "system_groups self w =
     map (\<lambda>(system_name, rules). (system_name, sort_reverse rule_key rules))
       (foldl (\<lambda>g rule. add_to_group (system_name_of self (get_workplace_type w) rule) rule g)
          [] (all_rules self w))"

text \<open>The body of the loop over the rules of the named systems.\<close>

definition eval_system_rule ::
  "WorkplaceOptimizer \<Rightarrow> string \<Rightarrow> (string \<rightharpoonup> Operator) \<Rightarrow> alloc_state \<Rightarrow> best
     \<Rightarrow> OperatorEfficiency \<Rightarrow> error + best"
where
  "eval_system_rule self wtype op_by_name s b rule =
     (let required = operators rule in
      if remaining_slots s \<le> 0 then Inr b
      else if list_ex (unavailable self wtype op_by_name s) required then Inr b
      else if int (length required) > remaining_slots s then Inr b
      else case lookup_ops op_by_name required of
        Inl e \<Rightarrow> Inl e
      | Inr op_objs \<Rightarrow>
          if \<not> check_elite_requirements op_objs (elite_requirements rule) then Inr b
          else if \<not> check_control_center_requirements self (requires_control_center rule) then Inr b
          else if \<not> check_dormitory_requirements self (requires_dormitory rule) then Inr b
          else if \<not> check_power_station_requirements self (requires_power_station rule) then Inr b
          else if required = [] then Inl ZeroDivisionError
          else
            (let efficiency_per_slot = synergy_efficiency rule / of_nat (length required) in
             if efficiency_per_slot > snd b then
               Inr (Some \<lparr>c_type = System, c_rule = rule, c_required = required,
                           c_efficiency = synergy_efficiency rule,
                           c_slots_used = int (length required)\<rparr>, efficiency_per_slot)
             else Inr b))"

text \<open>\<^verbatim>\<open>{op_name: rule.elite_requirements.get(op_name, 0)}\<close>.\<close>

definition req_elite_of :: "OperatorEfficiency \<Rightarrow> string \<Rightarrow> (string \<times> int) list" where
  "req_elite_of rule name =
     [(name, case map_of (elite_requirements rule) name of None \<Rightarrow> 0 | Some e \<Rightarrow> e)]"

text \<open>The body of the inner loop of an \<^verbatim>\<open>apply_each\<close> rule, over its operator names; \<open>tag\<close>
  is the candidate type the path writes.\<close>

definition eval_each_op ::
  "WorkplaceOptimizer \<Rightarrow> string \<Rightarrow> (string \<rightharpoonup> Operator) \<Rightarrow> alloc_state \<Rightarrow> candidate_type
     \<Rightarrow> OperatorEfficiency \<Rightarrow> best \<Rightarrow> string \<Rightarrow> error + best"
where
  "eval_each_op self wtype op_by_name s tag rule b name =
     (if unavailable self wtype op_by_name s name then Inr b
      else case op_by_name name of
        None \<Rightarrow> Inl KeyError
      | Some op_obj \<Rightarrow>
          if \<not> check_elite_requirements [op_obj] (req_elite_of rule name) \<or>
             \<not> check_control_center_requirements self (requires_control_center rule) then Inr b
          else if synergy_efficiency rule > snd b then
            Inr (Some \<lparr>c_type = tag, c_rule = rule, c_required = [name],
                        c_efficiency = synergy_efficiency rule, c_slots_used = 1\<rparr>,
                 synergy_efficiency rule)
          else Inr b)"

text \<open>The branch of a rule that is not \<^verbatim>\<open>apply_each\<close>, in the generic loop and in the
  remaining-slot loop: tiers and control-center requirements are checked.\<close>

definition eval_group_rule ::
  "WorkplaceOptimizer \<Rightarrow> string \<Rightarrow> (string \<rightharpoonup> Operator) \<Rightarrow> alloc_state \<Rightarrow> candidate_type
     \<Rightarrow> best \<Rightarrow> OperatorEfficiency \<Rightarrow> error + best"
where
  "eval_group_rule self wtype op_by_name s tag b rule =
     (let required = operators rule in
      if list_ex (unavailable self wtype op_by_name s) required \<or>
         int (length required) > remaining_slots s then Inr b
      else case lookup_ops op_by_name required of
        Inl e \<Rightarrow> Inl e
      | Inr op_objs \<Rightarrow>
          if \<not> check_elite_requirements op_objs (elite_requirements rule) \<or>
             \<not> check_control_center_requirements self (requires_control_center rule) then Inr b
          else if required = [] then Inl ZeroDivisionError
          else
            (let efficiency_per_slot = synergy_efficiency rule / of_nat (length required) in
             if efficiency_per_slot > snd b then
               Inr (Some \<lparr>c_type = tag, c_rule = rule, c_required = required,
                           c_efficiency = synergy_efficiency rule,
                           c_slots_used = int (length required)\<rparr>, efficiency_per_slot)
             else Inr b))"

text \<open>The body of the loop over the generic rules.\<close>

definition eval_generic_rule ::
  "WorkplaceOptimizer \<Rightarrow> string \<Rightarrow> (string \<rightharpoonup> Operator) \<Rightarrow> alloc_state \<Rightarrow> best
     \<Rightarrow> OperatorEfficiency \<Rightarrow> error + best"
where
  "eval_generic_rule self wtype op_by_name s b rule =
     (if remaining_slots s \<le> 0 then Inr b
      else if apply_each rule then
        fold_err (\<lambda>b name. if remaining_slots s \<le> 0 then Inr b
                            else eval_each_op self wtype op_by_name s GenericEach rule b name)
          (operators rule) b
      else eval_group_rule self wtype op_by_name s Generic b rule)"

text \<open>The evaluation of \<^verbatim>\<open>optimize_workplace\<close>: the rules of every group but the generic
  one, group after group, then the rules of the generic group, on one
  \<^verbatim>\<open>best_candidate\<close>/\<^verbatim>\<open>best_efficiency\<close> pair that starts at \<^verbatim>\<open>(None, -1)\<close>.\<close>

definition named_rules :: "WorkplaceOptimizer \<Rightarrow> Workplace \<Rightarrow> OperatorEfficiency list" where
  "named_rules self w =
     concat (map snd (filter (\<lambda>(system_name, rules). system_name \<noteq> generic_name)
                        (system_groups self w)))"

definition generic_rules :: "WorkplaceOptimizer \<Rightarrow> Workplace \<Rightarrow> OperatorEfficiency list" where
  "generic_rules self w =
     (case map_of (system_groups self w) generic_name of None \<Rightarrow> [] | Some rules \<Rightarrow> rules)"

definition first_pass ::
  "WorkplaceOptimizer \<Rightarrow> Workplace \<Rightarrow> (string \<rightharpoonup> Operator) \<Rightarrow> alloc_state \<Rightarrow> error + best" where
  "first_pass self w op_by_name s =
     (case fold_err (eval_system_rule self (get_workplace_type w) op_by_name s)
             (named_rules self w) (None, - 1) of
        Inl e \<Rightarrow> Inl e
      | Inr b \<Rightarrow>
          fold_err (eval_generic_rule self (get_workplace_type w) op_by_name s)
            (generic_rules self w) b)"

text \<open>Applying the best candidate: every required name is assigned, marked in both sets
  and counted (\<^verbatim>\<open>operator_usage[op_name] += 1\<close> raises on a missing key); then the
  capacity, the synergy, the description and the requirement lists are updated.\<close>

fun assign_required ::
  "(string \<rightharpoonup> Operator) \<Rightarrow> string list \<Rightarrow> alloc_state \<Rightarrow> error + alloc_state" where
  "assign_required op_by_name [] s = Inr s"
| "assign_required op_by_name (name # rest) s =
     (case op_by_name name of
        None \<Rightarrow> Inl KeyError
      | Some op \<Rightarrow>
          (case operator_usage s name of
             None \<Rightarrow> Inl KeyError
           | Some c \<Rightarrow>
               assign_required op_by_name rest
                 (s\<lparr>assigned_ops := assigned_ops s @ [op],
                    used_names := insert name (used_names s),
                    shift_used_names := insert name (shift_used_names s),
                    operator_usage := (operator_usage s)(name \<mapsto> c + 1)\<rparr>)))"

definition applied_description :: "candidate_type \<Rightarrow> candidate \<Rightarrow> string" where
  "applied_description each_tag c =
     (if c_type c = each_tag then
        description (c_rule c) @ ''('' @ join '', '' (c_required c) @ '')''
      else description (c_rule c))"

definition apply_candidate ::
  "(string \<rightharpoonup> Operator) \<Rightarrow> candidate_type \<Rightarrow> candidate \<Rightarrow> alloc_state \<Rightarrow> error + alloc_state"
where
  "apply_candidate op_by_name each_tag c s =
     (case assign_required op_by_name (c_required c) s of
        Inl e \<Rightarrow> Inl e
      | Inr s' \<Rightarrow>
          Inr (s'\<lparr>remaining_slots := remaining_slots s' - c_slots_used c,
                  total_synergy := total_synergy s' + c_efficiency c,
                  applied := applied s' @ [applied_description each_tag c],
                  applied_control_center_reqs :=
                    applied_control_center_reqs s' @ requires_control_center (c_rule c),
                  applied_dormitory_reqs :=
                    applied_dormitory_reqs s' @ requires_dormitory (c_rule c),
                  applied_power_station_reqs :=
                    applied_power_station_reqs s' @ requires_power_station (c_rule c)\<rparr>))"

section \<open>The remaining-slot filler: \<^verbatim>\<open>optimize_workplace_recursive\<close>\<close>

text \<open>The body of the loop over all matching rules, in the order of the compiled table.\<close>

definition eval_rule ::
  "WorkplaceOptimizer \<Rightarrow> string \<Rightarrow> (string \<rightharpoonup> Operator) \<Rightarrow> alloc_state \<Rightarrow> best
     \<Rightarrow> OperatorEfficiency \<Rightarrow> error + best"
where
  "eval_rule self wtype op_by_name s b rule =
     (if apply_each rule then
        fold_err (eval_each_op self wtype op_by_name s Each rule) (operators rule) b
      else eval_group_rule self wtype op_by_name s Normal b rule)"

definition evaluate_rules ::
  "WorkplaceOptimizer \<Rightarrow> Workplace \<Rightarrow> alloc_state \<Rightarrow> error + best" where
  "evaluate_rules self w s =
     fold_err (eval_rule self (get_workplace_type w) (by_name (get_available_operators self)) s)
       (all_rules self w) (None, - 1)"

subsection \<open>What every candidate of an evaluation satisfies\<close>

text \<open>The facts about a candidate that its application relies on: its operators passed
  the availability test in the state of the evaluation, its slot cost is the number of
  its operators, at least one and within the remaining capacity, and the operators are
  those of its rule or one of them.\<close>

definition candidate_ok ::
  "WorkplaceOptimizer \<Rightarrow> string \<Rightarrow> (string \<rightharpoonup> Operator) \<Rightarrow> alloc_state \<Rightarrow> candidate \<Rightarrow> bool"
where
  "candidate_ok self wtype op_by_name s c =
     (list_all (\<lambda>n. \<not> unavailable self wtype op_by_name s n) (c_required c) \<and>
      c_required c \<noteq> [] \<and>
      c_slots_used c = int (length (c_required c)) \<and>
      c_slots_used c \<le> remaining_slots s \<and>
      c_efficiency c = synergy_efficiency (c_rule c) \<and>
      c_rule c \<in> set (efficiency_rules self) \<and>
      (c_required c = operators (c_rule c) \<or> length (c_required c) = 1))"

definition best_ok ::
  "WorkplaceOptimizer \<Rightarrow> string \<Rightarrow> (string \<rightharpoonup> Operator) \<Rightarrow> alloc_state \<Rightarrow> best \<Rightarrow> bool"
where
  "best_ok self wtype op_by_name s b =
     (case fst b of None \<Rightarrow> True | Some c \<Rightarrow> candidate_ok self wtype op_by_name s c)"

lemma fold_err_invariant:
  assumes "fold_err f xs b = Inr b'" and "P b"
    and "\<And>b x b'. P b \<Longrightarrow> x \<in> set xs \<Longrightarrow> f b x = Inr b' \<Longrightarrow> P b'"
  shows "P b'"
  using assms
proof (induction xs arbitrary: b)
  case Nil
  then show ?case by simp
next
  case (Cons x xs)
  from Cons.prems(1) obtain b1 where step: "f b x = Inr b1" and rest: "fold_err f xs b1 = Inr b'"
    by (auto split: sum.splits)
  have "P b1" by (rule Cons.prems(3) [OF Cons.prems(2) _ step]) simp
  show ?case
  proof (rule Cons.IH [OF rest \<open>P b1\<close>])
    fix c y c'
    assume "P c" "y \<in> set xs" "f c y = Inr c'"
    then show "P c'" using Cons.prems(3) [of c y c'] by simp
  qed
qed

lemma eval_each_op_ok:
  assumes "eval_each_op self wtype obn s tag rule b name = Inr b'"
    and "best_ok self wtype obn s b" and "0 < remaining_slots s"
    and "rule \<in> set (efficiency_rules self)"
  shows "best_ok self wtype obn s b'"
  using assms
  by (auto simp: eval_each_op_def best_ok_def candidate_ok_def
           split: if_splits option.splits)

lemma eval_group_rule_ok:
  assumes "eval_group_rule self wtype obn s tag b rule = Inr b'"
    and "best_ok self wtype obn s b" and "rule \<in> set (efficiency_rules self)"
  shows "best_ok self wtype obn s b'"
  using assms
  by (auto simp: eval_group_rule_def best_ok_def candidate_ok_def Let_def
                 list_all_iff list_ex_iff
           split: if_splits sum.splits)

lemma eval_system_rule_ok:
  assumes "eval_system_rule self wtype obn s b rule = Inr b'"
    and "best_ok self wtype obn s b" and "rule \<in> set (efficiency_rules self)"
  shows "best_ok self wtype obn s b'"
  using assms
  by (auto simp: eval_system_rule_def best_ok_def candidate_ok_def Let_def
                 list_all_iff list_ex_iff
           split: if_splits sum.splits)

lemma eval_rule_ok:
  assumes "eval_rule self wtype obn s b rule = Inr b'"
    and "best_ok self wtype obn s b" and "0 < remaining_slots s"
    and "rule \<in> set (efficiency_rules self)"
  shows "best_ok self wtype obn s b'"
proof (cases "apply_each rule")
  case True
  with assms(1) have
    "fold_err (eval_each_op self wtype obn s Each rule) (operators rule) b = Inr b'"
    by (simp add: eval_rule_def)
  then show ?thesis
    by (rule fold_err_invariant [where P = "best_ok self wtype obn s"])
       (use assms in \<open>auto intro: eval_each_op_ok\<close>)
next
  case False
  with assms show ?thesis by (auto simp: eval_rule_def intro: eval_group_rule_ok)
qed

lemma eval_generic_rule_ok:
  assumes "eval_generic_rule self wtype obn s b rule = Inr b'"
    and "best_ok self wtype obn s b" and "rule \<in> set (efficiency_rules self)"
  shows "best_ok self wtype obn s b'"
proof (cases "remaining_slots s \<le> 0")
  case True
  with assms show ?thesis by (simp add: eval_generic_rule_def)
next
  case pos: False
  show ?thesis
  proof (cases "apply_each rule")
    case True
    with assms(1) pos have
      "fold_err (eval_each_op self wtype obn s GenericEach rule) (operators rule) b = Inr b'"
      by (simp add: eval_generic_rule_def)
    then show ?thesis
      by (rule fold_err_invariant [where P = "best_ok self wtype obn s"])
         (use assms pos in \<open>auto intro: eval_each_op_ok\<close>)
  next
    case False
    with assms pos show ?thesis by (auto simp: eval_generic_rule_def intro: eval_group_rule_ok)
  qed
qed

lemma all_rules_subset: "set (all_rules self w) \<subseteq> set (efficiency_rules self)"
  by (auto simp: all_rules_def)

lemma best_ok_initial: "best_ok self wtype obn s (None, e)"
  by (simp add: best_ok_def)

lemma evaluate_rules_ok:
  assumes "evaluate_rules self w s = Inr b" and "0 < remaining_slots s"
  shows "best_ok self (get_workplace_type w) (by_name (get_available_operators self)) s b"
  using assms(1) unfolding evaluate_rules_def
  by (rule fold_err_invariant) (use assms(2) all_rules_subset in \<open>auto intro: eval_rule_ok best_ok_initial\<close>)

subsection \<open>Applying a candidate\<close>

lemma assign_required_remaining:
  "assign_required obn ns s = Inr s' \<Longrightarrow> remaining_slots s' = remaining_slots s"
  by (induction ns arbitrary: s) (auto split: option.splits)

lemma apply_candidate_remaining:
  "apply_candidate obn tag c s = Inr s' \<Longrightarrow>
     remaining_slots s' = remaining_slots s - c_slots_used c"
  by (auto simp: apply_candidate_def split: sum.splits dest: assign_required_remaining)

subsection \<open>The loop\<close>

text \<open>\<^verbatim>\<open>while remaining_slots > 0\<close>: evaluate every matching rule, apply the best candidate
  when its efficiency is above zero, leave the loop otherwise.\<close>

function fill_loop :: "WorkplaceOptimizer \<Rightarrow> Workplace \<Rightarrow> alloc_state \<Rightarrow> error + alloc_state" where
  "fill_loop self w s =
     (if remaining_slots s > 0 then
        (case evaluate_rules self w s of
           Inl e \<Rightarrow> Inl e
         | Inr b \<Rightarrow>
             (case fst b of
                None \<Rightarrow> Inr s
              | Some c \<Rightarrow>
                  if snd b > 0 then
                    (case apply_candidate (by_name (get_available_operators self)) Each c s of
                       Inl e \<Rightarrow> Inl e
                     | Inr s' \<Rightarrow> fill_loop self w s')
                  else Inr s))
      else Inr s)"
  by pat_completeness auto
termination
proof (relation "measure (\<lambda>(self, w, s). nat (remaining_slots s))")
  show "wf (measure (\<lambda>(self, w, s). nat (remaining_slots s)))" by simp
next
  fix self w s b c s'
  assume pos: "0 < remaining_slots s"
    and ev: "evaluate_rules self w s = Inr b"
    and some: "fst b = Some c"
    and app: "apply_candidate (by_name (get_available_operators self)) Each c s = Inr s'"
  from evaluate_rules_ok [OF ev pos] some
  have "candidate_ok self (get_workplace_type w) (by_name (get_available_operators self)) s c"
    by (simp add: best_ok_def)
  then have "1 \<le> c_slots_used c"
    by (cases "c_required c") (auto simp: candidate_ok_def)
  with apply_candidate_remaining [OF app] pos
  show "((self, w, s'), (self, w, s)) \<in> measure (\<lambda>(self, w, s). nat (remaining_slots s))"
    by simp
qed

text \<open>\<^verbatim>\<open>optimize_workplace_recursive\<close>: its own accumulators start empty; the operator list,
  both name sets and the usage counts are the caller's objects. The final state carries
  what the returned dictionary holds (the synergy, the descriptions and the three
  requirement lists) and what was mutated in place.\<close>

definition optimize_workplace_recursive ::
  "WorkplaceOptimizer \<Rightarrow> Workplace \<Rightarrow> alloc_state \<Rightarrow> error + alloc_state" where
  "optimize_workplace_recursive self w s =
     fill_loop self w
       (s\<lparr>total_synergy := 0, applied := [], applied_control_center_reqs := [],
          applied_dormitory_reqs := [], applied_power_station_reqs := []\<rparr>)"

text \<open>\<^verbatim>\<open>optimize_workplace\<close> returns the result together with the two objects of the
  caller that it mutated: the usage counts and the names used in the shift.\<close>

definition initial_state :: "Workplace \<Rightarrow> (string \<rightharpoonup> int) \<Rightarrow> string set \<Rightarrow> alloc_state" where
  "initial_state w usage shift_used =
     \<lparr>operator_usage = usage, shift_used_names = shift_used, assigned_ops = [],
      used_names = {}, remaining_slots = max_operators w, total_synergy = 0, applied = [],
      applied_control_center_reqs = [], applied_dormitory_reqs = [],
      applied_power_station_reqs = []\<rparr>"

text \<open>The state after the first evaluation and the application of its winner.\<close>

definition first_step :: "WorkplaceOptimizer \<Rightarrow> Workplace \<Rightarrow> alloc_state \<Rightarrow> error + alloc_state" where
  "first_step self w s =
     (case first_pass self w (by_name (get_available_operators self)) s of
        Inl e \<Rightarrow> Inl e
      | Inr b \<Rightarrow>
          (case fst b of
             None \<Rightarrow> Inr s
           | Some c \<Rightarrow>
               if snd b > 0 then
                 apply_candidate (by_name (get_available_operators self)) GenericEach c s
               else Inr s))"

definition optimize_workplace ::
  "WorkplaceOptimizer \<Rightarrow> Workplace \<Rightarrow> (string \<rightharpoonup> int) \<Rightarrow> string set
     \<Rightarrow> error + (AssignmentResult \<times> (string \<rightharpoonup> int) \<times> string set)"
where
  "optimize_workplace self w usage shift_used =
     (case first_step self w (initial_state w usage shift_used) of
        Inl e \<Rightarrow> Inl e
      | Inr s1 \<Rightarrow>
          (case (if remaining_slots s1 > 0 then
                   (case optimize_workplace_recursive self w s1 of
                      Inl e \<Rightarrow> Inl e
                    | Inr r \<Rightarrow>
                        Inr (r\<lparr>total_synergy := total_synergy s1 + total_synergy r,
                               applied := applied s1 @ applied r,
                               applied_control_center_reqs :=
                                 applied_control_center_reqs s1 @ applied_control_center_reqs r,
                               applied_dormitory_reqs :=
                                 applied_dormitory_reqs s1 @ applied_dormitory_reqs r,
                               applied_power_station_reqs :=
                                 applied_power_station_reqs s1 @ applied_power_station_reqs r\<rparr>))
                 else Inr s1) of
             Inl e \<Rightarrow> Inl e
           | Inr s2 \<Rightarrow>
               Inr (\<lparr>workplace = w,
                     optimal_operators = assigned_ops s2,
                     total_efficiency = wp_base_efficiency w + total_synergy s2,
                     operator_efficiency = total_synergy s2,
                     applied_combinations = applied s2,
                     control_center_requirements = applied_control_center_reqs s2,
                     dormitory_requirements = applied_dormitory_reqs s2,
                     power_station_requirements = applied_power_station_reqs s2\<rparr>,
                    operator_usage s2, shift_used_names s2)))"

section \<open>The quota-boost selector: \<^verbatim>\<open>select_fiammetta_targets\<close>\<close>

definition eligible_target :: "WorkplaceOptimizer \<Rightarrow> string \<Rightarrow> bool" where
  "eligible_target self name =
     (case map_of (self_operators self) name of
        None \<Rightarrow> False
      | Some op \<Rightarrow> op_own op \<and> op_elite op \<ge> 2)"

text \<open>The three preferred names of the source, as UTF-8 bytes.\<close>

definition preferred_targets :: "string list" where
  "preferred_targets =
     [[CHR 0xE5, CHR 0xB7, CHR 0xAB, CHR 0xE6, CHR 0x81, CHR 0x8B],
      [CHR 0xE9, CHR 0xBE, CHR 0x99, CHR 0xE8, CHR 0x88, CHR 0x8C, CHR 0xE5, CHR 0x85, CHR 0xB0],
      [CHR 0xE4, CHR 0xBD, CHR 0x86, CHR 0xE4, CHR 0xB9, CHR 0xA6]]"

text \<open>A loop that appends names and leaves as soon as three are selected.\<close>

fun append_until_three :: "string list \<Rightarrow> string list \<Rightarrow> string list" where
  "append_until_three selected [] = selected"
| "append_until_three selected (name # rest) =
     (if length (selected @ [name]) \<ge> 3 then selected @ [name]
      else append_until_three (selected @ [name]) rest)"

text \<open>The score dictionary: every eligible operator of a trading rule that is not yet
  selected gains the rule's synergy divided by the size of its group.\<close>

definition add_scores ::
  "WorkplaceOptimizer \<Rightarrow> string list \<Rightarrow> (string \<times> rat) list \<Rightarrow> OperatorEfficiency
     \<Rightarrow> (string \<times> rat) list"
where
  "add_scores self selected op_scores rule =
     foldl (\<lambda>scores name.
        if eligible_target self name \<and> name \<notin> set selected then
          AList.update name
            ((case map_of scores name of None \<Rightarrow> 0 | Some v \<Rightarrow> v)
               + synergy_efficiency rule / of_nat (length (operators rule))) scores
        else scores) op_scores (operators rule)"

definition select_fiammetta_targets :: "WorkplaceOptimizer \<Rightarrow> string list" where
  "select_fiammetta_targets self =
     (let selected = filter (eligible_target self) preferred_targets in
      if length selected \<ge> 3 then selected
      else
        (let trading_rules =
               filter (\<lambda>r. workplace_type r = ''trading_station'') (efficiency_rules self);
             op_scores = foldl (add_scores self selected) [] trading_rules;
             sorted_ops = map fst (sort_reverse snd op_scores)
         in append_until_three selected sorted_ops))"

section \<open>The cycle scheduler: \<^verbatim>\<open>get_optimal_assignments\<close>\<close>

text \<open>A room of a plan is a dictionary with some of the keys \<^verbatim>\<open>operators\<close>,
  \<^verbatim>\<open>autofill\<close> and \<^verbatim>\<open>product\<close>.\<close>

record Room =
  room_operators :: "string list option"
  room_autofill :: "bool option"
  room_product :: "string option"

text \<open>The plan of one shift. \<open>plan_shift\<close> stands for the two texts that are formatted
  from the number of the shift.\<close>

record Plan =
  plan_shift :: nat
  plan_fiammetta_enable :: bool
  plan_fiammetta_target :: string
  plan_trading :: "Room list"
  plan_manufacture :: "Room list"
  plan_control :: "Room list"
  plan_power :: "Room list"
  plan_meeting :: "Room list"
  plan_hire :: "Room list"
  plan_dormitory :: "Room list"
  plan_processing :: "Room list"

text \<open>What a shift threads through its workplaces: the usage counts of the whole cycle,
  the names used in this shift, and the two sets of support operators. A Python set is
  kept as the list of its elements in the order of insertion.\<close>

record shift_state =
  ss_operator_usage :: "string \<rightharpoonup> int"
  ss_shift_used_names :: "string set"
  ss_control_operators :: "string list"
  ss_dormitory_operators :: "string list"

definition set_add :: "string \<Rightarrow> string list \<Rightarrow> string list" where
  "set_add x xs = (if x \<in> set xs then xs else xs @ [x])"

text \<open>The two loops that admit the support operators required by a result: the test
  reads the count with a default, the increment does not.\<close>

fun admit_control :: "Requirement list \<Rightarrow> shift_state \<Rightarrow> error + shift_state" where
  "admit_control [] st = Inr st"
| "admit_control (req # reqs) st =
     (if req_operator req \<notin> ss_shift_used_names st \<and>
         usage_get (ss_operator_usage st) (req_operator req) < 2 then
        (case ss_operator_usage st (req_operator req) of
           None \<Rightarrow> Inl KeyError
         | Some c \<Rightarrow>
             admit_control reqs
               (st\<lparr>ss_control_operators := set_add (req_operator req) (ss_control_operators st),
                   ss_shift_used_names := insert (req_operator req) (ss_shift_used_names st),
                   ss_operator_usage := (ss_operator_usage st)(req_operator req \<mapsto> c + 1)\<rparr>))
      else admit_control reqs st)"

fun admit_dormitory :: "Requirement list \<Rightarrow> shift_state \<Rightarrow> error + shift_state" where
  "admit_dormitory [] st = Inr st"
| "admit_dormitory (req # reqs) st =
     (if req_operator req \<notin> ss_shift_used_names st \<and>
         usage_get (ss_operator_usage st) (req_operator req) < 2 then
        (case ss_operator_usage st (req_operator req) of
           None \<Rightarrow> Inl KeyError
         | Some c \<Rightarrow>
             admit_dormitory reqs
               (st\<lparr>ss_dormitory_operators := set_add (req_operator req) (ss_dormitory_operators st),
                   ss_shift_used_names := insert (req_operator req) (ss_shift_used_names st),
                   ss_operator_usage := (ss_operator_usage st)(req_operator req \<mapsto> c + 1)\<rparr>))
      else admit_dormitory reqs st)"

definition operator_names :: "AssignmentResult \<Rightarrow> string list" where
  "operator_names result = map op_name (optimal_operators result)"

text \<open>The body of the loops over the trading and the manufacturing stations: the room of
  the result, then the admission of its control-center and dormitory operators.\<close>

definition station_step ::
  "WorkplaceOptimizer \<Rightarrow> shift_state \<times> Room list \<Rightarrow> Workplace \<Rightarrow> error + (shift_state \<times> Room list)"
where
  "station_step self acc w =
     (case acc of (st, rooms) \<Rightarrow>
        (case optimize_workplace self w (ss_operator_usage st) (ss_shift_used_names st) of
           Inl e \<Rightarrow> Inl e
         | Inr (result, usage, shift_used) \<Rightarrow>
             (let room = \<lparr>room_operators = Some (operator_names result),
                          room_autofill = Some (optimal_operators result = []),
                          room_product = Some (current_product w)\<rparr>
              in case admit_control (control_center_requirements result)
                        (st\<lparr>ss_operator_usage := usage, ss_shift_used_names := shift_used\<rparr>) of
                   Inl e \<Rightarrow> Inl e
                 | Inr st1 \<Rightarrow>
                     (case admit_dormitory (dormitory_requirements result) st1 of
                        Inl e \<Rightarrow> Inl e
                      | Inr st2 \<Rightarrow> Inr (st2, rooms @ [room])))))"

text \<open>The meeting room and the power stations: the room of the result and nothing else.\<close>

definition plain_step ::
  "WorkplaceOptimizer \<Rightarrow> shift_state \<times> Room list \<Rightarrow> Workplace \<Rightarrow> error + (shift_state \<times> Room list)"
where
  "plain_step self acc w =
     (case acc of (st, rooms) \<Rightarrow>
        (case optimize_workplace self w (ss_operator_usage st) (ss_shift_used_names st) of
           Inl e \<Rightarrow> Inl e
         | Inr (result, usage, shift_used) \<Rightarrow>
             Inr (st\<lparr>ss_operator_usage := usage, ss_shift_used_names := shift_used\<rparr>,
                  rooms @ [\<lparr>room_operators = Some (operator_names result),
                            room_autofill = Some (optimal_operators result = []),
                            room_product = None\<rparr>])))"

text \<open>One iteration of \<^verbatim>\<open>for shift in range(3)\<close>. \<open>to_list\<close> is \<^verbatim>\<open>list(s)\<close> for a set of
  strings: the order in which Python iterates over the set, which the language leaves
  open and CPython derives from the per-process string hashes.\<close>

definition run_shift ::
  "(string list \<Rightarrow> string list) \<Rightarrow> WorkplaceOptimizer \<Rightarrow> bool \<Rightarrow> (string \<rightharpoonup> int) \<Rightarrow> nat
     \<Rightarrow> error + (Plan \<times> (string \<rightharpoonup> int))"
where
  "run_shift to_list self fiammetta_enable usage shift =
     (let current_target =
            (if fiammetta_targets self \<noteq> []
             then fiammetta_targets self ! (shift mod length (fiammetta_targets self)) else '''');
          st0 = \<lparr>ss_operator_usage = usage, ss_shift_used_names = {},
                 ss_control_operators = [], ss_dormitory_operators = []\<rparr>
      in case fold_err (station_step self) (trading_stations (workplaces self)) (st0, []) of
        Inl e \<Rightarrow> Inl e
      | Inr (st1, trading) \<Rightarrow>
     (case fold_err (station_step self) (manufacturing_stations (workplaces self)) (st1, []) of
        Inl e \<Rightarrow> Inl e
      | Inr (st2, manufacture) \<Rightarrow>
     (case meeting_room (workplaces self) of
        [] \<Rightarrow> Inl IndexError
      | m # _ \<Rightarrow>
     (case plain_step self (st2, []) m of
        Inl e \<Rightarrow> Inl e
      | Inr (st3, meeting) \<Rightarrow>
     (case fold_err (plain_step self) (power_station (workplaces self)) (st3, []) of
        Inl e \<Rightarrow> Inl e
      | Inr (st4, power_rooms) \<Rightarrow>
          Inr (\<lparr>plan_shift = shift,
                plan_fiammetta_enable = fiammetta_enable,
                plan_fiammetta_target = current_target,
                plan_trading = trading,
                plan_manufacture = manufacture,
                plan_control =
                  [\<lparr>room_operators = Some (to_list (ss_control_operators st2)),
                    room_autofill = None, room_product = None\<rparr>],
                plan_power = power_rooms,
                plan_meeting = meeting,
                plan_hire = [\<lparr>room_operators = Some [], room_autofill = None, room_product = None\<rparr>],
                plan_dormitory =
                  (if ss_dormitory_operators st2 \<noteq> [] then
                     [\<lparr>room_operators = Some (to_list (ss_dormitory_operators st2)),
                       room_autofill = Some True, room_product = None\<rparr>]
                   else [\<lparr>room_operators = None, room_autofill = Some True, room_product = None\<rparr>])
                  @ replicate 3 \<lparr>room_operators = None, room_autofill = Some True, room_product = None\<rparr>,
                plan_processing =
                  [\<lparr>room_operators = Some [], room_autofill = None, room_product = None\<rparr>]\<rparr>,
               ss_operator_usage st4))))))"

text \<open>The three shifts, threading the usage counts.\<close>

fun run_shifts ::
  "(string list \<Rightarrow> string list) \<Rightarrow> WorkplaceOptimizer \<Rightarrow> bool \<Rightarrow> nat list \<Rightarrow> (string \<rightharpoonup> int)
     \<Rightarrow> error + (Plan list \<times> (string \<rightharpoonup> int))"
where
  "run_shifts to_list self fiammetta_enable [] usage = Inr ([], usage)"
| "run_shifts to_list self fiammetta_enable (shift # shifts) usage =
     (case run_shift to_list self fiammetta_enable usage shift of
        Inl e \<Rightarrow> Inl e
      | Inr (plan, usage') \<Rightarrow>
          (case run_shifts to_list self fiammetta_enable shifts usage' of
             Inl e \<Rightarrow> Inl e
           | Inr (plans, usage'') \<Rightarrow> Inr (plan # plans, usage'')))"

text \<open>The products of a category: the requested quantities expanded into a flat
  sequence, zipped against the stations in order; a station beyond the sequence gets the
  empty product.\<close>

definition expand_products :: "(string \<times> int) list \<Rightarrow> string list" where
  "expand_products reqs = concat (map (\<lambda>(product, count). replicate (nat count) product) reqs)"

definition set_products :: "string list \<Rightarrow> Workplace list \<Rightarrow> Workplace list" where
  "set_products ps ws =
     map (\<lambda>(i, w). w\<lparr>current_product := (if i < length ps then ps ! i else '''')\<rparr>)
       (enumerate 0 ws)"

definition default_product_requirements :: ProductRequirements where
  "default_product_requirements =
     \<lparr>pr_trading_stations = [(''LMD'', 3), (''Orundum'', 0)],
      pr_manufacturing_stations =
        [(''Pure Gold'', 3), (''Originium Shard'', 0), (''Battle Record'', 0)]\<rparr>"

text \<open>The state of the optimizer when the shifts start: the targets are selected and the
  products are set.\<close>

definition prepare :: "WorkplaceOptimizer \<Rightarrow> ProductRequirements option \<Rightarrow> WorkplaceOptimizer" where
  "prepare self product_requirements =
     (let pr = (case product_requirements of
                  Some p \<Rightarrow> p
                | None \<Rightarrow>
                    (case cfg_product_requirements (config_data self) of
                       Some p \<Rightarrow> p
                     | None \<Rightarrow> default_product_requirements));
          fiammetta_enable = cfg_fiammetta_enable (config_data self);
          fiammetta_available = (if fiammetta_enable then check_fiammetta_available self else False);
          targets = (if fiammetta_available then select_fiammetta_targets self else [])
      in self\<lparr>fiammetta_targets := targets,
              workplaces := (workplaces self)
                \<lparr>trading_stations :=
                   set_products (expand_products (pr_trading_stations pr))
                     (trading_stations (workplaces self)),
                 manufacturing_stations :=
                   set_products (expand_products (pr_manufacturing_stations pr))
                     (manufacturing_stations (workplaces self))\<rparr>\<rparr>)"

definition initial_usage :: "WorkplaceOptimizer \<Rightarrow> (string \<rightharpoonup> int)" where
  "initial_usage self = map_of (map (\<lambda>op. (op_name op, 0)) (get_available_operators self))"

text \<open>The whole cycle, with the final usage counts beside the plans.\<close>

definition run_cycle ::
  "(string list \<Rightarrow> string list) \<Rightarrow> WorkplaceOptimizer \<Rightarrow> ProductRequirements option
     \<Rightarrow> error + (Plan list \<times> (string \<rightharpoonup> int))"
where
  "run_cycle to_list self product_requirements =
     (let self' = prepare self product_requirements;
          fiammetta_enable =
            (cfg_fiammetta_enable (config_data self) \<and> fiammetta_targets self' \<noteq> [])
      in run_shifts to_list self' fiammetta_enable [0, 1, 2] (initial_usage self'))"

definition get_optimal_assignments ::
  "(string list \<Rightarrow> string list) \<Rightarrow> WorkplaceOptimizer \<Rightarrow> ProductRequirements option
     \<Rightarrow> error + Plan list"
where
  "get_optimal_assignments to_list self product_requirements =
     (case run_cycle to_list self product_requirements of
        Inl e \<Rightarrow> Inl e
      | Inr (plans, usage) \<Rightarrow> Inr plans)"

section \<open>The compiled table is sorted, and the sort is stable\<close>

lemma set_insort_reverse: "set (insort_reverse f x ys) = insert x (set ys)"
  by (induction ys) auto

lemma mset_insort_reverse: "mset (insort_reverse f x ys) = add_mset x (mset ys)"
  by (induction ys) auto

lemma mset_sort_reverse: "mset (sort_reverse f xs) = mset xs"
  by (induction xs) (auto simp: sort_reverse_def mset_insort_reverse)

lemma set_sort_reverse: "set (sort_reverse f xs) = set xs"
  using mset_sort_reverse [of f xs] by (metis set_mset_mset)

lemma sorted_insort_reverse:
  "sorted_wrt (\<lambda>a b. f b \<le> f a) ys \<Longrightarrow> sorted_wrt (\<lambda>a b. f b \<le> f a) (insort_reverse f x ys)"
  by (induction ys) (auto simp: set_insort_reverse)

lemma sorted_sort_reverse: "sorted_wrt (\<lambda>a b. f b \<le> f a) (sort_reverse f xs)"
  by (induction xs) (auto simp: sort_reverse_def sorted_insort_reverse)

lemma filter_insort_reverse:
  "filter (\<lambda>y. f y = k) (insort_reverse f x ys) =
     (if f x = k then x # filter (\<lambda>y. f y = k) ys else filter (\<lambda>y. f y = k) ys)"
  by (induction ys) auto

lemma filter_sort_reverse:
  "filter (\<lambda>y. f y = k) (sort_reverse f xs) = filter (\<lambda>y. f y = k) xs"
  by (induction xs) (auto simp: sort_reverse_def filter_insort_reverse)

text \<open>The order the specification names: priority descending, then synergy descending.\<close>

definition in_order :: "OperatorEfficiency \<Rightarrow> OperatorEfficiency \<Rightarrow> bool" where
  "in_order a b =
     (priority a > priority b \<or>
      (priority a = priority b \<and> synergy_efficiency a \<ge> synergy_efficiency b))"

lemma rule_key_order: "rule_key b \<le> rule_key a \<longleftrightarrow> in_order a b"
  by (auto simp: rule_key_def in_order_def less_eq_prod_def)

text \<open>
  Claim C8. Whenever the rule compiler returns a table, the table is in the order
  (priority descending, synergy descending), it holds exactly the rules that the
  expansion of the specification produced, and the rules of one priority and one synergy
  stand in the order in which the expansion produced them.
\<close>

theorem load_efficiency_rules_sorted_stable:
  assumes "load_efficiency_rules cr = Inr rules"
  shows "sorted_wrt in_order rules \<and>
         (\<exists>expanded. expand_rules cr = Inr expanded \<and> mset rules = mset expanded \<and>
            (\<forall>p e. filter (\<lambda>r. priority r = p \<and> synergy_efficiency r = e) rules =
                    filter (\<lambda>r. priority r = p \<and> synergy_efficiency r = e) expanded))"
proof -
  from assms obtain expanded where ex: "expand_rules cr = Inr expanded"
    and rules: "rules = sort_reverse rule_key expanded"
    by (auto simp: load_efficiency_rules_def split: sum.splits)
  have "sorted_wrt (\<lambda>a b. rule_key b \<le> rule_key a) rules"
    unfolding rules by (rule sorted_sort_reverse)
  then have sorted: "sorted_wrt in_order rules"
    by (simp add: rule_key_order)
  have stable: "filter (\<lambda>r. priority r = p \<and> synergy_efficiency r = e) rules =
                filter (\<lambda>r. priority r = p \<and> synergy_efficiency r = e) expanded" for p e
    using filter_sort_reverse [of rule_key "(p, e)" expanded]
    by (simp add: rules rule_key_def)
  show ?thesis using ex sorted stable by (simp add: rules mset_sort_reverse)
qed

text \<open>A specification with one flat system of four single-operator rules: B and C tie on
  priority and synergy, D has the highest priority.\<close>

definition single_rule :: "string \<Rightarrow> rat \<Rightarrow> int option \<Rightarrow> rule_data" where
  "single_rule name eff prio =
     \<lparr>rd_combo = Some [name], rd_efficiency = Some eff, rd_control_center = None,
      rd_dormitory = None, rd_power_station = None, rd_apply_each = None,
      rd_priority = prio, rd_product = None\<rparr>"

definition sort_example :: combination_rules where
  "sort_example =
     [(''trading_station'',
       [(''sysA'', RuleList [single_rule ''A'' 5 None, single_rule ''B'' 10 None,
                             single_rule ''C'' 10 None, single_rule ''D'' 1 (Some 1)])])]"

theorem load_efficiency_rules_sorted_stable_witness:
  "\<exists>rules expanded.
     load_efficiency_rules sort_example = Inr rules \<and>
     map description rules = [''sysA - D'', ''sysA - B'', ''sysA - C'', ''sysA - A''] \<and>
     sorted_wrt in_order rules \<and>
     expand_rules sort_example = Inr expanded \<and>
     filter (\<lambda>r. priority r = 0 \<and> synergy_efficiency r = 10) rules =
       filter (\<lambda>r. priority r = 0 \<and> synergy_efficiency r = 10) expanded"
proof -
  have "map_sum id (map description) (load_efficiency_rules sort_example) =
          Inr [''sysA - D'', ''sysA - B'', ''sysA - C'', ''sysA - A'']"
    by code_simp
  then obtain rules where h: "load_efficiency_rules sort_example = Inr rules"
    and d: "map description rules = [''sysA - D'', ''sysA - B'', ''sysA - C'', ''sysA - A'']"
    by (cases "load_efficiency_rules sort_example") auto
  from load_efficiency_rules_sorted_stable [OF h] obtain expanded
    where s: "sorted_wrt in_order rules" and e: "expand_rules sort_example = Inr expanded"
      and st: "\<And>p e. filter (\<lambda>r. priority r = p \<and> synergy_efficiency r = e) rules =
                        filter (\<lambda>r. priority r = p \<and> synergy_efficiency r = e) expanded"
    by auto
  show ?thesis
    by (rule exI [of _ rules], rule exI [of _ expanded]) (simp only: h d s e st simp_thms)
qed

section \<open>A scenario\<close>

definition mk_operator :: "string \<Rightarrow> int \<Rightarrow> bool \<Rightarrow> Operator" where
  "mk_operator name elite own =
     \<lparr>op_id = name, op_name = name, op_elite = elite, op_level = 1, op_own = own,
      op_potential = 1, op_rarity = 5\<rparr>"

definition mk_workplace :: "string \<Rightarrow> int \<Rightarrow> Workplace" where
  "mk_workplace ident capacity =
     \<lparr>wp_id = ident, wp_name = ident, max_operators = capacity, wp_base_efficiency = 100,
      wp_products = [], current_product = ''''\<rparr>"

definition combo_rule :: "string list \<Rightarrow> rat \<Rightarrow> rule_data" where
  "combo_rule combo eff =
     \<lparr>rd_combo = Some combo, rd_efficiency = Some eff, rd_control_center = None,
      rd_dormitory = None, rd_power_station = None, rd_apply_each = None,
      rd_priority = None, rd_product = None\<rparr>"

definition plain_config :: Config where
  "plain_config = \<lparr>cfg_fiammetta_enable = False, cfg_product_requirements = None\<rparr>"

definition scenario_rules :: combination_rules where
  "scenario_rules =
     [(''trading_station'',
       [(''sysAB'', RuleList [combo_rule [''A/2'', ''B''] 50]),
        (''singles'', RuleList [(combo_rule [''A'', ''B'', ''C''] 10)\<lparr>rd_apply_each := Some True\<rparr>])])]"

definition scenario_trading :: Workplace where
  "scenario_trading = mk_workplace ''trading_1'' 4"

definition scenario_meeting :: Workplace where
  "scenario_meeting = mk_workplace ''meeting'' 2"

definition scenario :: "error + WorkplaceOptimizer" where
  "scenario =
     init scenario_rules [mk_operator ''A'' 2 True, mk_operator ''B'' 0 True, mk_operator ''C'' 0 True]
       plain_config
       \<lparr>trading_stations = [scenario_trading], manufacturing_stations = [],
        meeting_room = [scenario_meeting], power_station = []\<rparr>"

lemma map_sum_InrE: "map_sum id f x = Inr y \<Longrightarrow> \<exists>a. x = Inr a \<and> f a = y"
  by (cases x) auto

section \<open>The allocator, step by step\<close>

declare fill_loop.simps [simp del]

subsection \<open>The groups hold the matching rules\<close>

definition group_rules :: "(string \<times> 'a list) list \<Rightarrow> 'a set" where
  "group_rules g = set (concat (map snd g))"

lemma group_rules_add: "group_rules (add_to_group k r g) = insert r (group_rules g)"
  by (induction k r g rule: add_to_group.induct) (auto simp: group_rules_def)

lemma group_rules_foldl:
  "group_rules (foldl (\<lambda>g r. add_to_group (f r) r g) g0 rs) = group_rules g0 \<union> set rs"
  by (induction rs arbitrary: g0) (auto simp: group_rules_add)

lemma group_rules_sorted:
  "group_rules (map (\<lambda>(k, rs). (k, sort_reverse f rs)) g) = group_rules g"
  by (induction g) (auto simp: group_rules_def set_sort_reverse)

lemma group_rules_system_groups: "group_rules (system_groups self w) = set (all_rules self w)"
  by (simp add: system_groups_def group_rules_sorted group_rules_foldl) (simp add: group_rules_def)

lemma named_rules_subset: "r \<in> set (named_rules self w) \<Longrightarrow> r \<in> set (efficiency_rules self)"
proof -
  assume "r \<in> set (named_rules self w)"
  moreover have "set (concat (map snd (filter Q g))) \<subseteq> set (concat (map snd g))"
    for Q and g :: "(string \<times> OperatorEfficiency list) list"
    by (induction g) auto
  ultimately have "r \<in> group_rules (system_groups self w)"
    unfolding named_rules_def group_rules_def by blast
  then show ?thesis
    using all_rules_subset by (auto simp: group_rules_system_groups)
qed

lemma generic_rules_subset: "r \<in> set (generic_rules self w) \<Longrightarrow> r \<in> set (efficiency_rules self)"
proof -
  assume "r \<in> set (generic_rules self w)"
  then obtain rs where "map_of (system_groups self w) generic_name = Some rs" and "r \<in> set rs"
    by (cases "map_of (system_groups self w) generic_name") (auto simp: generic_rules_def)
  then have "r \<in> group_rules (system_groups self w)"
    by (force simp: group_rules_def dest: map_of_SomeD)
  then show ?thesis
    using all_rules_subset by (auto simp: group_rules_system_groups)
qed

lemma first_pass_ok:
  assumes "first_pass self w obn s = Inr b"
  shows "best_ok self (get_workplace_type w) obn s b"
proof -
  from assms obtain b1 where
    sys: "fold_err (eval_system_rule self (get_workplace_type w) obn s) (named_rules self w) (None, - 1) = Inr b1"
    and gen: "fold_err (eval_generic_rule self (get_workplace_type w) obn s) (generic_rules self w) b1 = Inr b"
    by (auto simp: first_pass_def split: sum.splits)
  have "best_ok self (get_workplace_type w) obn s b1"
    using sys
    by (rule fold_err_invariant)
       (auto intro: eval_system_rule_ok best_ok_initial named_rules_subset)
  with gen show ?thesis
    by (rule fold_err_invariant)
       (auto intro: eval_generic_rule_ok generic_rules_subset)
qed

subsection \<open>Invariants of the allocator\<close>

lemma fill_loop_invariant:
  assumes "fill_loop self w s = Inr s'" and "P s"
    and step: "\<And>s c s1. P s \<Longrightarrow>
       candidate_ok self (get_workplace_type w) (by_name (get_available_operators self)) s c \<Longrightarrow>
       apply_candidate (by_name (get_available_operators self)) Each c s = Inr s1 \<Longrightarrow> P s1"
  shows "P s'"
  using assms
proof (induction self w s rule: fill_loop.induct)
  case (1 self w s)
  show ?case
  proof (cases "remaining_slots s > 0")
    case False
    with "1.prems" show ?thesis by (simp add: fill_loop.simps)
  next
    case pos: True
    show ?thesis
    proof (cases "evaluate_rules self w s")
      case (Inl e)
      with "1.prems" pos show ?thesis by (simp add: fill_loop.simps)
    next
      case (Inr b)
      show ?thesis
      proof (cases "fst b")
        case None
        with "1.prems" pos Inr show ?thesis by (simp add: fill_loop.simps)
      next
        case (Some c)
        show ?thesis
        proof (cases "snd b > 0")
          case False
          with "1.prems" pos Inr Some show ?thesis by (simp add: fill_loop.simps)
        next
          case True
          from "1.prems"(1) pos Inr Some True obtain s1 where
            app: "apply_candidate (by_name (get_available_operators self)) Each c s = Inr s1"
            and rest: "fill_loop self w s1 = Inr s'"
            by (auto simp: fill_loop.simps [of self w s] split: sum.splits)
          from evaluate_rules_ok [OF Inr pos] Some
          have ok: "candidate_ok self (get_workplace_type w)
                      (by_name (get_available_operators self)) s c"
            by (simp add: best_ok_def)
          have "P s1" by (rule "1.prems"(3) [OF "1.prems"(2) ok app])
          show ?thesis
          proof (rule "1.IH" [OF pos Inr Some True app rest \<open>P s1\<close>])
            fix t d t1
            assume "P t"
              and "candidate_ok self (get_workplace_type w)
                     (by_name (get_available_operators self)) t d"
              and "apply_candidate (by_name (get_available_operators self)) Each d t = Inr t1"
            then show "P t1" by (rule "1.prems"(3))
          qed
        qed
      qed
    qed
  qed
qed


lemma first_step_invariant:
  assumes "first_step self w s = Inr s'" and "P s"
    and step: "\<And>c s1.
       candidate_ok self (get_workplace_type w) (by_name (get_available_operators self)) s c \<Longrightarrow>
       apply_candidate (by_name (get_available_operators self)) GenericEach c s = Inr s1 \<Longrightarrow> P s1"
  shows "P s'"
proof -
  from assms(1) obtain b where
    fp: "first_pass self w (by_name (get_available_operators self)) s = Inr b"
    by (auto simp: first_step_def split: sum.splits)
  show ?thesis
  proof (cases "fst b")
    case None
    with assms(1,2) fp show ?thesis by (simp add: first_step_def)
  next
    case (Some c)
    show ?thesis
    proof (cases "snd b > 0")
      case False
      with assms(1,2) fp Some show ?thesis by (simp add: first_step_def)
    next
      case True
      with assms(1) fp Some have
        app: "apply_candidate (by_name (get_available_operators self)) GenericEach c s = Inr s'"
        by (simp add: first_step_def)
      from first_pass_ok [OF fp] Some
      have "candidate_ok self (get_workplace_type w) (by_name (get_available_operators self)) s c"
        by (simp add: best_ok_def)
      then show ?thesis using app by (rule step)
    qed
  qed
qed


lemma apply_candidate_applied:
  "apply_candidate obn tag c s = Inr s' \<Longrightarrow> applied s' \<noteq> []"
  by (auto simp: apply_candidate_def split: sum.splits)

definition synergy_zero_if_unapplied :: "alloc_state \<Rightarrow> bool" where
  "synergy_zero_if_unapplied s = (applied s = [] \<longrightarrow> total_synergy s = 0)"

text \<open>
  Claim C10. In every result that \<^verbatim>\<open>optimize_workplace\<close> returns, the total efficiency is
  the base efficiency of the workplace plus the operator (synergy) efficiency; when no
  rule was applied, the synergy is 0 and the total efficiency is the base efficiency.
\<close>

theorem total_efficiency_is_base_plus_synergy:
  assumes "optimize_workplace self w usage shift_used = Inr (result, usage', shift_used')"
  shows "total_efficiency result = wp_base_efficiency (workplace result) + operator_efficiency result \<and>
         (applied_combinations result = [] \<longrightarrow>
            operator_efficiency result = 0 \<and>
            total_efficiency result = wp_base_efficiency (workplace result))"
proof -
  let ?s0 = "initial_state w usage shift_used"
  from assms obtain s1 where fs: "first_step self w ?s0 = Inr s1"
    by (auto simp: optimize_workplace_def split: sum.splits)
  have "synergy_zero_if_unapplied ?s0"
    by (simp add: synergy_zero_if_unapplied_def initial_state_def)
  with fs have q1: "synergy_zero_if_unapplied s1"
    by (rule first_step_invariant)
       (auto simp: synergy_zero_if_unapplied_def dest: apply_candidate_applied)
  show ?thesis
  proof (cases "remaining_slots s1 > 0")
    case False
    with assms fs q1 show ?thesis
      by (auto simp: optimize_workplace_def synergy_zero_if_unapplied_def)
  next
    case True
    with assms fs obtain r where
      rec: "optimize_workplace_recursive self w s1 = Inr r"
      by (auto simp: optimize_workplace_def split: sum.splits)
    have "synergy_zero_if_unapplied r"
      using rec unfolding optimize_workplace_recursive_def
      by (rule fill_loop_invariant)
         (auto simp: synergy_zero_if_unapplied_def dest: apply_candidate_applied)
    with assms fs True rec q1 show ?thesis
      by (auto simp: optimize_workplace_def synergy_zero_if_unapplied_def)
  qed
qed


theorem total_efficiency_is_base_plus_synergy_witness:
  "\<exists>self r1 u1 sh1 r2 u2 sh2.
     scenario = Inr self \<and>
     optimize_workplace self scenario_trading (initial_usage self) {} = Inr (r1, u1, sh1) \<and>
     applied_combinations r1 \<noteq> [] \<and> operator_efficiency r1 = 60 \<and> total_efficiency r1 = 160 \<and>
     optimize_workplace self scenario_meeting (initial_usage self) {} = Inr (r2, u2, sh2) \<and>
     applied_combinations r2 = [] \<and> operator_efficiency r2 = 0 \<and> total_efficiency r2 = 100"
proof -
  have "map_sum id (\<lambda>self.
          (map_sum id (\<lambda>r. (applied_combinations (fst r) = [], operator_efficiency (fst r),
                             wp_base_efficiency (workplace (fst r))))
             (optimize_workplace self scenario_trading (initial_usage self) {}),
           map_sum id (\<lambda>r. (applied_combinations (fst r) = [],
                             wp_base_efficiency (workplace (fst r))))
             (optimize_workplace self scenario_meeting (initial_usage self) {}))) scenario =
        Inr (Inr (False, 60, 100), Inr (True, 100))"
    by code_simp
  from map_sum_InrE [OF this] obtain self where self: "scenario = Inr self"
    and t: "map_sum id (\<lambda>r. (applied_combinations (fst r) = [], operator_efficiency (fst r),
                              wp_base_efficiency (workplace (fst r))))
              (optimize_workplace self scenario_trading (initial_usage self) {}) =
            Inr (False, 60, 100)"
    and m: "map_sum id (\<lambda>r. (applied_combinations (fst r) = [],
                              wp_base_efficiency (workplace (fst r))))
              (optimize_workplace self scenario_meeting (initial_usage self) {}) =
            Inr (True, 100)"
    by auto
  from map_sum_InrE [OF t] obtain r1 u1 sh1 where
    o1: "optimize_workplace self scenario_trading (initial_usage self) {} = Inr (r1, u1, sh1)"
    and f1: "applied_combinations r1 \<noteq> []" "operator_efficiency r1 = 60"
            "wp_base_efficiency (workplace r1) = 100"
    by auto
  from map_sum_InrE [OF m] obtain r2 u2 sh2 where
    o2: "optimize_workplace self scenario_meeting (initial_usage self) {} = Inr (r2, u2, sh2)"
    and f2: "applied_combinations r2 = []" "wp_base_efficiency (workplace r2) = 100"
    by auto
  from total_efficiency_is_base_plus_synergy [OF o1] f1
  have g1: "total_efficiency r1 = 160" by simp
  from total_efficiency_is_base_plus_synergy [OF o2] f2
  have g2: "operator_efficiency r2 = 0" "total_efficiency r2 = 100" by simp_all
  from self o1 f1 g1 o2 f2 g2 show ?thesis by blast
qed

subsection \<open>Termination of the remaining-slot loop\<close>









lemma by_name_Some: "by_name ops n = Some op \<Longrightarrow> op \<in> set ops \<and> op_name op = n"
  unfolding by_name_def by (auto dest!: map_of_SomeD)














subsection \<open>What an application changes\<close>

lemma assign_required_sets:
  "assign_required obn ns s = Inr s' \<Longrightarrow>
     shift_used_names s' = shift_used_names s \<union> set ns \<and>
     used_names s' = used_names s \<union> set ns"
  by (induction ns arbitrary: s) (auto split: option.splits)

lemma assign_required_names:
  "assign_required (by_name ops) ns s = Inr s' \<Longrightarrow>
     map op_name (assigned_ops s') = map op_name (assigned_ops s) @ ns"
proof (induction ns arbitrary: s)
  case Nil
  then show ?case by simp
next
  case (Cons n ns)
  from Cons.prems obtain op c where op: "by_name ops n = Some op"
    and c: "operator_usage s n = Some c"
    and rest: "assign_required (by_name ops) ns
                 (s\<lparr>assigned_ops := assigned_ops s @ [op],
                    used_names := insert n (used_names s),
                    shift_used_names := insert n (shift_used_names s),
                    operator_usage := (operator_usage s)(n \<mapsto> c + 1)\<rparr>) = Inr s'"
    by (auto split: option.splits)
  from by_name_Some [OF op] Cons.IH [OF rest] show ?case by simp
qed


lemma apply_candidate_sets:
  "apply_candidate obn tag c s = Inr s' \<Longrightarrow>
     shift_used_names s' = shift_used_names s \<union> set (c_required c) \<and>
     used_names s' = used_names s \<union> set (c_required c)"
  by (auto simp: apply_candidate_def split: sum.splits dest: assign_required_sets)

lemma apply_candidate_names:
  "apply_candidate (by_name ops) tag c s = Inr s' \<Longrightarrow>
     map op_name (assigned_ops s') = map op_name (assigned_ops s) @ c_required c"
  by (auto simp: apply_candidate_def split: sum.splits dest: assign_required_names)


text \<open>An invariant of the objects that the allocator shares with its caller holds of the
  result when it holds at the start, every application keeps it, and it does not read
  the accumulators.\<close>

lemma optimize_workplace_invariant:
  assumes run: "optimize_workplace self w usage shift_used = Inr (result, usage', shift_used')"
    and init: "P (initial_state w usage shift_used)"
    and step: "\<And>s c tag s1. P s \<Longrightarrow>
       candidate_ok self (get_workplace_type w) (by_name (get_available_operators self)) s c \<Longrightarrow>
       apply_candidate (by_name (get_available_operators self)) tag c s = Inr s1 \<Longrightarrow> P s1"
    and frame: "\<And>s a b x y z. P s \<Longrightarrow>
       P (s\<lparr>total_synergy := a, applied := b, applied_control_center_reqs := x,
            applied_dormitory_reqs := y, applied_power_station_reqs := z\<rparr>)"
  shows "\<exists>s. P s \<and> usage' = operator_usage s \<and> shift_used' = shift_used_names s \<and>
             optimal_operators result = assigned_ops s"
proof -
  from run obtain s1 where fs: "first_step self w (initial_state w usage shift_used) = Inr s1"
    by (auto simp: optimize_workplace_def split: sum.splits)
  from fs init have p1: "P s1"
    by (rule first_step_invariant) (rule step [OF init])
  show ?thesis
  proof (cases "remaining_slots s1 > 0")
    case False
    with run fs p1 show ?thesis
      by (auto simp: optimize_workplace_def)
  next
    case True
    with run fs obtain r where rec: "optimize_workplace_recursive self w s1 = Inr r"
      by (auto simp: optimize_workplace_def split: sum.splits)
    have "P r"
      using rec unfolding optimize_workplace_recursive_def
      by (rule fill_loop_invariant) (rule frame [OF p1], rule step)
    with run fs True rec show ?thesis
      by (intro exI [of _ r]) (auto simp: optimize_workplace_def)
  qed
qed

section \<open>Exclusivity within a shift\<close>

lemma candidate_ok_unused:
  "candidate_ok self wtype obn s c \<Longrightarrow> n \<in> set (c_required c) \<Longrightarrow> n \<notin> shift_used_names s"
  by (auto simp: candidate_ok_def list_all_iff unavailable_def)

text \<open>The operators of a result were outside the exclusivity set of the shift when the
  allocator was called, and they are inside it afterwards; the set only grows.\<close>

lemma optimize_workplace_exclusive:
  assumes "optimize_workplace self w usage shift_used = Inr (result, usage', shift_used')"
  shows "shift_used \<subseteq> shift_used' \<and> set (operator_names result) \<subseteq> shift_used' - shift_used"
proof -
  let ?P = "\<lambda>s::alloc_state. shift_used \<subseteq> shift_used_names s \<and>
                 set (map op_name (assigned_ops s)) \<subseteq> shift_used_names s - shift_used"
  have "\<exists>s. ?P s \<and> usage' = operator_usage s \<and> shift_used' = shift_used_names s \<and>
             optimal_operators result = assigned_ops s"
  proof (rule optimize_workplace_invariant [OF assms, where P = ?P])
    show "?P (initial_state w usage shift_used)" by (simp add: initial_state_def)
  next
    fix s c tag s1
    assume p: "?P s"
      and ok: "candidate_ok self (get_workplace_type w) (by_name (get_available_operators self)) s c"
      and app: "apply_candidate (by_name (get_available_operators self)) tag c s = Inr s1"
    from candidate_ok_unused [OF ok] have "set (c_required c) \<inter> shift_used_names s = {}" by auto
    with p apply_candidate_sets [OF app] apply_candidate_names [OF app] show "?P s1"
      by (simp only: set_map [symmetric] set_append) auto
  next
    fix s a b x y z
    assume "?P s"
    then show "?P (s\<lparr>total_synergy := a, applied := b, applied_control_center_reqs := x,
                     applied_dormitory_reqs := y, applied_power_station_reqs := z\<rparr>)"
      by simp
  qed
  then show ?thesis unfolding operator_names_def by force
qed

lemma admit_control_shift_used:
  "admit_control reqs st = Inr st' \<Longrightarrow> ss_shift_used_names st \<subseteq> ss_shift_used_names st'"
proof (induction reqs arbitrary: st)
  case Nil
  then show ?case by simp
next
  case (Cons req reqs)
  show ?case
  proof (cases "req_operator req \<notin> ss_shift_used_names st \<and>
                usage_get (ss_operator_usage st) (req_operator req) < 2")
    case False
    with Cons.prems have "admit_control reqs st = Inr st'" by auto
    then show ?thesis by (rule Cons.IH)
  next
    case True
    with Cons.prems obtain st1 where "admit_control reqs st1 = Inr st'"
      and "ss_shift_used_names st1 = insert (req_operator req) (ss_shift_used_names st)"
      by (auto split: option.splits)
    with Cons.IH [of st1] show ?thesis by auto
  qed
qed

lemma admit_dormitory_shift_used:
  "admit_dormitory reqs st = Inr st' \<Longrightarrow> ss_shift_used_names st \<subseteq> ss_shift_used_names st'"
proof (induction reqs arbitrary: st)
  case Nil
  then show ?case by simp
next
  case (Cons req reqs)
  show ?case
  proof (cases "req_operator req \<notin> ss_shift_used_names st \<and>
                usage_get (ss_operator_usage st) (req_operator req) < 2")
    case False
    with Cons.prems have "admit_dormitory reqs st = Inr st'" by auto
    then show ?thesis by (rule Cons.IH)
  next
    case True
    with Cons.prems obtain st1 where "admit_dormitory reqs st1 = Inr st'"
      and "ss_shift_used_names st1 = insert (req_operator req) (ss_shift_used_names st)"
      by (auto split: option.splits)
    with Cons.IH [of st1] show ?thesis by auto
  qed
qed

text \<open>The operator list of a room, empty for a room without the key.\<close>

definition room_names :: "Room \<Rightarrow> string list" where
  "room_names r = (case room_operators r of None \<Rightarrow> [] | Some ns \<Rightarrow> ns)"

fun disjoint_lists :: "'a list list \<Rightarrow> bool" where
  "disjoint_lists [] = True"
| "disjoint_lists (x # xs) = (list_all (\<lambda>y. set x \<inter> set y = {}) xs \<and> disjoint_lists xs)"

lemma disjoint_lists_append:
  "disjoint_lists (xs @ ys) \<longleftrightarrow>
     disjoint_lists xs \<and> disjoint_lists ys \<and> (\<forall>x \<in> set xs. \<forall>y \<in> set ys. set x \<inter> set y = {})"
  by (induction xs) (auto simp: list_all_iff)

text \<open>The rooms written so far in one category of a shift: pairwise disjoint, and made
  of names that entered the exclusivity set after the category started.\<close>

definition rooms_ok :: "string set \<Rightarrow> shift_state \<times> Room list \<Rightarrow> bool" where
  "rooms_ok base acc =
     (base \<subseteq> ss_shift_used_names (fst acc) \<and>
      disjoint_lists (map room_names (snd acc)) \<and>
      (\<forall>r \<in> set (snd acc). set (room_names r) \<subseteq> ss_shift_used_names (fst acc) - base))"

lemma rooms_ok_extend:
  assumes "rooms_ok base (st, rooms)"
    and "ss_shift_used_names st \<subseteq> used'"
    and "set ns \<subseteq> used' - ss_shift_used_names st"
    and "room_names room = ns" and "ss_shift_used_names st' = used'"
  shows "rooms_ok base (st', rooms @ [room])"
proof -
  from assms have "disjoint_lists (map room_names rooms)"
    and in_used: "\<forall>r \<in> set rooms. set (room_names r) \<subseteq> ss_shift_used_names st - base"
    and base: "base \<subseteq> ss_shift_used_names st"
    by (simp_all add: rooms_ok_def)
  moreover from in_used assms(3,4)
  have "\<forall>r \<in> set rooms. set (room_names r) \<inter> set (room_names room) = {}" by blast
  moreover from in_used base assms(2,3,4)
  have "\<forall>r \<in> set (rooms @ [room]). set (room_names r) \<subseteq> used' - base" by auto
  ultimately show ?thesis
    using assms(2,5) by (auto simp: rooms_ok_def disjoint_lists_append)
qed

lemma station_step_rooms_ok:
  assumes "station_step self acc w = Inr acc'" and "rooms_ok base acc"
  shows "rooms_ok base acc'"
proof -
  obtain st rooms where acc: "acc = (st, rooms)" by (cases acc)
  from assms(1) acc obtain result usage shift_used st1 st2 room where
    opt: "optimize_workplace self w (ss_operator_usage st) (ss_shift_used_names st) =
            Inr (result, usage, shift_used)"
    and a1: "admit_control (control_center_requirements result)
               (st\<lparr>ss_operator_usage := usage, ss_shift_used_names := shift_used\<rparr>) = Inr st1"
    and a2: "admit_dormitory (dormitory_requirements result) st1 = Inr st2"
    and room: "room_names room = operator_names result"
    and acc': "acc' = (st2, rooms @ [room])"
    by (auto simp: station_step_def Let_def room_names_def split: sum.splits prod.splits)
  from admit_control_shift_used [OF a1] admit_dormitory_shift_used [OF a2]
  have "shift_used \<subseteq> ss_shift_used_names st2" by auto
  with optimize_workplace_exclusive [OF opt]
  have "ss_shift_used_names st \<subseteq> ss_shift_used_names st2"
    and "set (operator_names result) \<subseteq> ss_shift_used_names st2 - ss_shift_used_names st"
    by auto
  with assms(2) room show ?thesis
    unfolding acc acc' by (intro rooms_ok_extend [where st = st]) auto
qed

lemma plain_step_rooms_ok:
  assumes "plain_step self acc w = Inr acc'" and "rooms_ok base acc"
  shows "rooms_ok base acc'"
proof -
  obtain st rooms where acc: "acc = (st, rooms)" by (cases acc)
  from assms(1) acc obtain result usage shift_used where
    opt: "optimize_workplace self w (ss_operator_usage st) (ss_shift_used_names st) =
            Inr (result, usage, shift_used)"
    and acc': "acc' = (st\<lparr>ss_operator_usage := usage, ss_shift_used_names := shift_used\<rparr>,
                       rooms @ [\<lparr>room_operators = Some (operator_names result),
                                 room_autofill = Some (optimal_operators result = []),
                                 room_product = None\<rparr>])"
    by (auto simp: plain_step_def split: sum.splits prod.splits)
  from optimize_workplace_exclusive [OF opt] assms(2) show ?thesis
    unfolding acc acc'
    by (intro rooms_ok_extend [where st = st and ns = "operator_names result"])
       (auto simp: room_names_def)
qed

lemma rooms_ok_start: "rooms_ok (ss_shift_used_names st) (st, [])"
  by (simp add: rooms_ok_def)

definition plan_workplace_rooms :: "Plan \<Rightarrow> Room list" where
  "plan_workplace_rooms p = plan_trading p @ plan_manufacture p @ plan_meeting p @ plan_power p"

definition exclusive_plan :: "Plan \<Rightarrow> bool" where
  "exclusive_plan p = disjoint_lists (map room_names (plan_workplace_rooms p))"

lemma run_shift_exclusive:
  assumes "run_shift to_list self enable usage shift = Inr (plan, usage')"
  shows "exclusive_plan plan"
proof -
  let ?st0 = "\<lparr>ss_operator_usage = usage, ss_shift_used_names = {},
               ss_control_operators = [], ss_dormitory_operators = []\<rparr>"
  from assms obtain st1 trading st2 manufacture m ms st3 meeting st4 power_rooms where
    t: "fold_err (station_step self) (trading_stations (workplaces self)) (?st0, []) = Inr (st1, trading)"
    and mf: "fold_err (station_step self) (manufacturing_stations (workplaces self)) (st1, []) = Inr (st2, manufacture)"
    and mr: "meeting_room (workplaces self) = m # ms"
    and me: "plain_step self (st2, []) m = Inr (st3, meeting)"
    and pw: "fold_err (plain_step self) (power_station (workplaces self)) (st3, []) = Inr (st4, power_rooms)"
    and rooms: "plan_workplace_rooms plan = trading @ manufacture @ meeting @ power_rooms"
    by (auto simp: run_shift_def Let_def plan_workplace_rooms_def
             split: sum.splits prod.splits list.splits)
  have "rooms_ok {} (?st0, [])" by (simp add: rooms_ok_def)
  with t have T: "rooms_ok {} (st1, trading)"
    by (rule fold_err_invariant) (auto intro: station_step_rooms_ok)
  have M: "rooms_ok (ss_shift_used_names st1) (st2, manufacture)"
    using mf by (rule fold_err_invariant) (auto intro: rooms_ok_start station_step_rooms_ok)
  have E: "rooms_ok (ss_shift_used_names st2) (st3, meeting)"
    using me rooms_ok_start by (rule plain_step_rooms_ok)
  have P: "rooms_ok (ss_shift_used_names st3) (st4, power_rooms)"
    using pw by (rule fold_err_invariant) (auto intro: rooms_ok_start plain_step_rooms_ok)
  from T M E P show ?thesis
    unfolding exclusive_plan_def rooms rooms_ok_def
    by (simp add: disjoint_lists_append) blast
qed

lemma run_shifts_exclusive:
  "run_shifts to_list self enable shifts usage = Inr (plans, usage') \<Longrightarrow> list_all exclusive_plan plans"
proof (induction shifts arbitrary: usage plans)
  case Nil
  then show ?case by simp
next
  case (Cons shift shifts)
  from Cons.prems obtain plan u1 rest where
    "run_shift to_list self enable usage shift = Inr (plan, u1)"
    and "run_shifts to_list self enable shifts u1 = Inr (rest, usage')"
    and "plans = plan # rest"
    by (auto split: sum.splits prod.splits)
  with Cons.IH run_shift_exclusive show ?case by auto
qed

text \<open>
  Claim C4. In every plan of the cycle, the operator lists of the workplaces of that
  shift (the trading stations, the manufacturing stations, the meeting room and the power
  stations) are pairwise disjoint: no name is in the list of more than one workplace,
  whatever usage budget it has left. Every shift starts from the empty exclusivity set.
\<close>

theorem shift_exclusivity:
  assumes "get_optimal_assignments to_list self product_requirements = Inr plans"
  shows "list_all exclusive_plan plans"
proof -
  from assms obtain usage where "run_cycle to_list self product_requirements = Inr (plans, usage)"
    by (auto simp: get_optimal_assignments_def split: sum.splits)
  then show ?thesis
    unfolding run_cycle_def Let_def by (rule run_shifts_exclusive)
qed

section \<open>A cycle with support operators\<close>

text \<open>Six owned operators; a trading system of A and B that needs P and Q in the control
  center, a flat list of single operators, and two manufacturing rules; two trading
  stations, one manufacturing station and the meeting room.\<close>

definition cycle_rules :: combination_rules where
  "cycle_rules =
     [(''trading_station'',
       [(''sysAB'', RuleList [(combo_rule [''A/2'', ''B''] 50)\<lparr>rd_control_center := Some [''P'', ''Q/1'']\<rparr>]),
        (''singles'', RuleList [(combo_rule [''A'', ''B'', ''C'', ''D''] 10)\<lparr>rd_apply_each := Some True\<rparr>])]),
      (''manufacturing_station'',
       [(''sysM'', RuleList [combo_rule [''A''] 30, combo_rule [''D''] 5])])]"

definition cycle_example :: "error + WorkplaceOptimizer" where
  "cycle_example =
     init cycle_rules
       [mk_operator ''A'' 2 True, mk_operator ''B'' 0 True, mk_operator ''C'' 0 True,
        mk_operator ''D'' 0 True, mk_operator ''P'' 2 True, mk_operator ''Q'' 2 True]
       plain_config
       \<lparr>trading_stations = [mk_workplace ''trading_1'' 2, mk_workplace ''trading_2'' 1],
        manufacturing_stations = [mk_workplace ''manufacturing_1'' 1],
        meeting_room = [mk_workplace ''meeting'' 2], power_station = []\<rparr>"

theorem shift_exclusivity_witness:
  "\<exists>self plans.
     cycle_example = Inr self \<and> get_optimal_assignments id self None = Inr plans \<and>
     map (\<lambda>p. map room_names (plan_workplace_rooms p)) plans =
       [[[''A'', ''B''], [''C''], [''D''], []],
        [[''A'', ''B''], [''C''], [''D''], []],
        [[], [], [], []]] \<and>
     list_all exclusive_plan plans"
proof -
  have "map_sum id (\<lambda>self.
          map_sum id (map (\<lambda>p. map room_names (plan_workplace_rooms p)))
            (get_optimal_assignments id self None)) cycle_example =
        Inr (Inr [[[''A'', ''B''], [''C''], [''D''], []],
                  [[''A'', ''B''], [''C''], [''D''], []],
                  [[], [], [], []]])"
    by code_simp
  from map_sum_InrE [OF this] obtain self where self: "cycle_example = Inr self"
    and m: "map_sum id (map (\<lambda>p. map room_names (plan_workplace_rooms p)))
              (get_optimal_assignments id self None) =
            Inr [[[''A'', ''B''], [''C''], [''D''], []],
                 [[''A'', ''B''], [''C''], [''D''], []],
                 [[], [], [], []]]"
    by auto
  from map_sum_InrE [OF m] obtain plans where
    run: "get_optimal_assignments id self None = Inr plans"
    and rooms: "map (\<lambda>p. map room_names (plan_workplace_rooms p)) plans =
                  [[[''A'', ''B''], [''C''], [''D''], []],
                   [[''A'', ''B''], [''C''], [''D''], []],
                   [[], [], [], []]]"
    by auto
  have ex: "list_all exclusive_plan plans" by (rule shift_exclusivity [OF run])
  show ?thesis
    by (rule exI [of _ self], rule exI [of _ plans]) (intro conjI self run rooms ex)
qed

section \<open>The usage budget\<close>

















lemma prepare_rules: "efficiency_rules (prepare self pr) = efficiency_rules self"
  by (simp add: prepare_def Let_def)





section \<open>A cycle with the quota boost\<close>






section \<open>Determinism\<close>

text \<open>The plan of a run in which sets are listed in the order \<open>f\<close>, from the plan of the
  run that lists them in the order of insertion.\<close>

definition map_room_operators :: "(string list \<Rightarrow> string list) \<Rightarrow> Room \<Rightarrow> Room" where
  "map_room_operators f r = r\<lparr>room_operators := map_option f (room_operators r)\<rparr>"

definition reorder_support :: "(string list \<Rightarrow> string list) \<Rightarrow> Plan \<Rightarrow> Plan" where
  "reorder_support f p =
     p\<lparr>plan_control := map (map_room_operators f) (plan_control p),
       plan_dormitory := map (map_room_operators f) (plan_dormitory p)\<rparr>"

lemma run_shift_order:
  "run_shift f self enable usage shift =
     map_sum id (\<lambda>r. (reorder_support f (fst r), snd r)) (run_shift (\<lambda>xs. xs) self enable usage shift)"
  by (simp add: run_shift_def Let_def reorder_support_def map_room_operators_def
           split: sum.splits prod.splits list.splits)

lemma run_shifts_order:
  "run_shifts f self enable shifts usage =
     map_sum id (\<lambda>r. (map (reorder_support f) (fst r), snd r))
       (run_shifts (\<lambda>xs. xs) self enable shifts usage)"
proof (induction shifts arbitrary: usage)
  case Nil
  then show ?case by simp
next
  case (Cons shift shifts)
  show ?case
  proof (cases "run_shift (\<lambda>xs. xs) self enable usage shift")
    case (Inl e)
    then show ?thesis by (simp add: run_shift_order [of f])
  next
    case (Inr r)
    obtain plan u1 where r: "r = (plan, u1)" by (cases r)
    show ?thesis
      by (cases "run_shifts (\<lambda>xs. xs) self enable shifts u1")
         (auto simp: run_shift_order [of f] Inr r Cons.IH [of u1])
  qed
qed

lemma run_cycle_order:
  "run_cycle f self pr =
     map_sum id (\<lambda>r. (map (reorder_support f) (fst r), snd r)) (run_cycle (\<lambda>xs. xs) self pr)"
  unfolding run_cycle_def Let_def by (rule run_shifts_order)

lemma get_optimal_assignments_order:
  "get_optimal_assignments f self pr =
     map_sum id (map (reorder_support f)) (get_optimal_assignments (\<lambda>xs. xs) self pr)"
  by (cases "run_cycle (\<lambda>xs. xs) self pr")
     (auto simp: get_optimal_assignments_def run_cycle_order [of f])

text \<open>What two runs agree on: every field of the plan with the operator lists of the
  control center and of the dormitories taken as sets.\<close>

definition room_view :: "Room \<Rightarrow> string set option \<times> bool option \<times> string option" where
  "room_view r = (map_option set (room_operators r), room_autofill r, room_product r)"

definition plan_view :: "Plan \<Rightarrow> Plan \<times> (string set option \<times> bool option \<times> string option) list
                           \<times> (string set option \<times> bool option \<times> string option) list" where
  "plan_view p =
     (p\<lparr>plan_control := [], plan_dormitory := []\<rparr>,
      map room_view (plan_control p), map room_view (plan_dormitory p))"

lemma plan_view_reorder:
  assumes "\<And>xs. set (f xs) = set xs"
  shows "plan_view (reorder_support f p) = plan_view p"
proof -
  have "room_view (map_room_operators f r) = room_view r" for r
    by (cases "room_operators r") (simp_all add: room_view_def map_room_operators_def assms)
  then show ?thesis by (simp add: plan_view_def reorder_support_def)
qed

subsection \<open>A second run on the same object\<close>

lemma set_product_twice:
  "map (\<lambda>(i, w). w\<lparr>current_product := g i\<rparr>)
     (enumerate n (map (\<lambda>(i, w). w\<lparr>current_product := g i\<rparr>) (enumerate n ws))) =
   map (\<lambda>(i, w). w\<lparr>current_product := g i\<rparr>) (enumerate n ws)"
  by (induction ws arbitrary: n) auto

lemma set_products_idem: "set_products ps (set_products ps ws) = set_products ps ws"
  unfolding set_products_def by (rule set_product_twice)

lemma eligible_target_prepare: "eligible_target (prepare self pr) = eligible_target self"
  by (rule ext) (simp add: eligible_target_def prepare_def Let_def)

lemma add_scores_prepare: "add_scores (prepare self pr) = add_scores self"
  by (intro ext) (simp add: add_scores_def eligible_target_prepare)

lemma select_fiammetta_targets_prepare:
  "select_fiammetta_targets (prepare self pr) = select_fiammetta_targets self"
  by (simp add: select_fiammetta_targets_def eligible_target_prepare add_scores_prepare
                prepare_rules Let_def)

lemma prepare_config: "config_data (prepare self pr) = config_data self"
  by (simp add: prepare_def Let_def)

lemma prepare_idem: "prepare (prepare self pr) pr = prepare self pr"
proof -
  have o: "check_fiammetta_available (prepare self pr) = check_fiammetta_available self"
    by (simp add: prepare_def Let_def check_fiammetta_available_def)
  show ?thesis
    unfolding prepare_def [of "prepare self pr"] prepare_config o select_fiammetta_targets_prepare
    by (simp add: prepare_def Let_def set_products_idem)
qed

lemma run_cycle_again: "run_cycle f (prepare self pr) pr = run_cycle f self pr"
  by (simp only: run_cycle_def Let_def prepare_idem prepare_config)

text \<open>
  Claim C7, as the code has it. A run is a function of its inputs and of the order in
  which the interpreter lists a set of strings. A second run on the same optimizer
  object, in the same process, returns what the first run returned. Two runs that list
  sets in different orders end with the same error or return plans that agree in every
  field except the order of the names inside the control-center list and the dormitory
  list, which hold the same names.
\<close>

theorem runs_agree_up_to_set_order:
  assumes "\<And>xs. set (f xs) = set xs" and "\<And>xs. set (g xs) = set xs"
  shows "map_sum id (map plan_view) (get_optimal_assignments f self pr) =
         map_sum id (map plan_view) (get_optimal_assignments g self pr) \<and>
         get_optimal_assignments f (prepare self pr) pr = get_optimal_assignments f self pr"
proof -
  have "map_sum id (map plan_view) (get_optimal_assignments h self pr) =
        map_sum id (map plan_view) (get_optimal_assignments (\<lambda>xs. xs) self pr)"
    if "\<And>xs. set (h xs) = set xs" for h
    by (cases "get_optimal_assignments (\<lambda>xs. xs) self pr")
       (simp_all add: get_optimal_assignments_order [of h] plan_view_reorder [OF that] comp_def)
  from this [OF assms(1)] this [OF assms(2)] show ?thesis
    by (simp add: get_optimal_assignments_def run_cycle_again)
qed

theorem runs_agree_up_to_set_order_witness:
  "\<exists>self plans.
     cycle_example = Inr self \<and>
     get_optimal_assignments rev self None = Inr plans \<and>
     map (\<lambda>p. map room_names (plan_control p)) plans = [[[''Q'', ''P'']], [[''Q'', ''P'']], [[]]] \<and>
     map_sum id (map plan_view) (get_optimal_assignments (\<lambda>xs. xs) self None) =
       map_sum id (map plan_view) (get_optimal_assignments rev self None) \<and>
     get_optimal_assignments rev (prepare self None) None = get_optimal_assignments rev self None"
proof -
  have "map_sum id (\<lambda>self.
          map_sum id (map (\<lambda>p. map room_names (plan_control p)))
            (get_optimal_assignments rev self None)) cycle_example =
        Inr (Inr [[[''Q'', ''P'']], [[''Q'', ''P'']], [[]]])"
    by code_simp
  from map_sum_InrE [OF this] obtain self where self: "cycle_example = Inr self"
    and m: "map_sum id (map (\<lambda>p. map room_names (plan_control p)))
              (get_optimal_assignments rev self None) =
            Inr [[[''Q'', ''P'']], [[''Q'', ''P'']], [[]]]"
    by auto
  from map_sum_InrE [OF m] obtain plans where
    run: "get_optimal_assignments rev self None = Inr plans"
    and control: "map (\<lambda>p. map room_names (plan_control p)) plans =
                    [[[''Q'', ''P'']], [[''Q'', ''P'']], [[]]]"
    by auto
  have "map_sum id (map plan_view) (get_optimal_assignments rev self None) =
          map_sum id (map plan_view) (get_optimal_assignments (\<lambda>xs. xs) self None) \<and>
        get_optimal_assignments rev (prepare self None) None =
          get_optimal_assignments rev self None"
    by (rule runs_agree_up_to_set_order) simp_all
  then have agree: "map_sum id (map plan_view) (get_optimal_assignments (\<lambda>xs. xs) self None) =
          map_sum id (map plan_view) (get_optimal_assignments rev self None)"
    and again: "get_optimal_assignments rev (prepare self None) None =
          get_optimal_assignments rev self None"
    by simp_all
  show ?thesis
    by (rule exI [of _ self], rule exI [of _ plans]) (intro conjI self run control agree again)
qed

text \<open>The counterexample to C7 as it is stated: the control center of the first shift
  receives P and Q, and the two orders of a set of two names give two different plans.\<close>

theorem runs_differ_counterexample:
  "\<exists>self. cycle_example = Inr self \<and>
     get_optimal_assignments (\<lambda>xs. xs) self None \<noteq> get_optimal_assignments rev self None"
proof -
  have "map_sum id (\<lambda>self.
          get_optimal_assignments (\<lambda>xs. xs) self None = get_optimal_assignments rev self None)
          cycle_example = Inr False"
    by code_simp
  from map_sum_InrE [OF this] show ?thesis by auto
qed

section \<open>Support requirements outside the first pass\<close>

text \<open>A named system whose only rule needs X in a dormitory and Z in a power station;
  the catalog holds A alone.\<close>

definition unchecked_rules :: combination_rules where
  "unchecked_rules =
     [(''trading_station'',
       [(''sysA'', RuleList [(combo_rule [''A''] 10)
                              \<lparr>rd_dormitory := Some [''X''], rd_power_station := Some [''Z'']\<rparr>])])]"

definition unchecked_example :: "error + WorkplaceOptimizer" where
  "unchecked_example =
     init unchecked_rules [mk_operator ''A'' 2 True] plain_config
       \<lparr>trading_stations = [mk_workplace ''trading_1'' 1], manufacturing_stations = [],
        meeting_room = [mk_workplace ''meeting'' 1], power_station = []\<rparr>"

text \<open>
  Claim C1 at this input: the first pass rejects the rule, because its dormitory
  requirement fails; the remaining-slot loop, which checks tiers and control-center
  requirements only, applies the same rule and assigns A, although neither the dormitory
  nor the power-station requirement is satisfied.
\<close>

theorem unmet_support_requirement_applied:
  "\<exists>self result usage shift_used.
     unchecked_example = Inr self \<and>
     first_pass self (mk_workplace ''trading_1'' 1) (by_name (get_available_operators self))
       (initial_state (mk_workplace ''trading_1'' 1) (initial_usage self) {}) = Inr (None, - 1) \<and>
     optimize_workplace self (mk_workplace ''trading_1'' 1) (initial_usage self) {} =
       Inr (result, usage, shift_used) \<and>
     operator_names result = [''A''] \<and>
     applied_combinations result = [''sysA - A''] \<and>
     operator_efficiency result = 10 \<and>
     \<not> check_dormitory_requirements self (dormitory_requirements result) \<and>
     \<not> check_power_station_requirements self (power_station_requirements result)"
proof -
  have "map_sum id (\<lambda>self.
          (first_pass self (mk_workplace ''trading_1'' 1) (by_name (get_available_operators self))
             (initial_state (mk_workplace ''trading_1'' 1) (initial_usage self) {}) = Inr (None, - 1),
           map_sum id (\<lambda>r. (operator_names (fst r), applied_combinations (fst r),
                             operator_efficiency (fst r),
                             check_dormitory_requirements self (dormitory_requirements (fst r)),
                             check_power_station_requirements self
                               (power_station_requirements (fst r))))
             (optimize_workplace self (mk_workplace ''trading_1'' 1) (initial_usage self) {})))
          unchecked_example =
        Inr (True, Inr ([''A''], [''sysA - A''], 10, False, False))"
    by code_simp
  from map_sum_InrE [OF this] obtain self where self: "unchecked_example = Inr self"
    and fp: "first_pass self (mk_workplace ''trading_1'' 1) (by_name (get_available_operators self))
               (initial_state (mk_workplace ''trading_1'' 1) (initial_usage self) {}) = Inr (None, - 1)"
    and m: "map_sum id (\<lambda>r. (operator_names (fst r), applied_combinations (fst r),
                             operator_efficiency (fst r),
                             check_dormitory_requirements self (dormitory_requirements (fst r)),
                             check_power_station_requirements self
                               (power_station_requirements (fst r))))
              (optimize_workplace self (mk_workplace ''trading_1'' 1) (initial_usage self) {}) =
            Inr ([''A''], [''sysA - A''], 10, False, False)"
    by auto
  from map_sum_InrE [OF m] obtain result usage shift_used where
    run: "optimize_workplace self (mk_workplace ''trading_1'' 1) (initial_usage self) {} =
            Inr (result, usage, shift_used)"
    and f: "operator_names result = [''A'']" "applied_combinations result = [''sysA - A'']"
           "operator_efficiency result = 10"
           "\<not> check_dormitory_requirements self (dormitory_requirements result)"
           "\<not> check_power_station_requirements self (power_station_requirements result)"
    by auto
  show ?thesis
    by (rule exI [of _ self], rule exI [of _ result], rule exI [of _ usage],
        rule exI [of _ shift_used]) (intro conjI self fp run f)
qed

section \<open>Errors of the pipeline on compiled configurations\<close>

text \<open>A rule with an empty combo compiles.\<close>

definition empty_combo_example :: "error + WorkplaceOptimizer" where
  "empty_combo_example =
     init [(''trading_station'', [(''sysE'', RuleList [combo_rule [] 10])])]
       [mk_operator ''A'' 2 True] plain_config
       \<lparr>trading_stations = [mk_workplace ''trading_1'' 1], manufacturing_stations = [],
        meeting_room = [mk_workplace ''meeting'' 1], power_station = []\<rparr>"

text \<open>
  Claim C5 at two inputs that pass the rule compilation. With the rule of the previous
  section, the scheduler admits the dormitory operator X of the result, whose count it
  reads with a default and increments without one: the pipeline ends in \<^verbatim>\<open>KeyError\<close>.
  With a rule whose combo is empty, the per-slot efficiency divides by zero: the pipeline
  ends in \<^verbatim>\<open>ZeroDivisionError\<close>.
\<close>

theorem pipeline_raises:
  "\<exists>self self2.
     unchecked_example = Inr self \<and>
     get_optimal_assignments (\<lambda>xs. xs) self None = Inl KeyError \<and>
     empty_combo_example = Inr self2 \<and>
     get_optimal_assignments (\<lambda>xs. xs) self2 None = Inl ZeroDivisionError"
proof -
  have "map_sum id (\<lambda>self. get_optimal_assignments (\<lambda>xs. xs) self None = Inl KeyError)
          unchecked_example = Inr True"
    by code_simp
  from map_sum_InrE [OF this] obtain self where self: "unchecked_example = Inr self"
    and k: "get_optimal_assignments (\<lambda>xs. xs) self None = Inl KeyError"
    by auto
  have "map_sum id (\<lambda>self. get_optimal_assignments (\<lambda>xs. xs) self None = Inl ZeroDivisionError)
          empty_combo_example = Inr True"
    by code_simp
  from map_sum_InrE [OF this] obtain self2 where self2: "empty_combo_example = Inr self2"
    and z: "get_optimal_assignments (\<lambda>xs. xs) self2 None = Inl ZeroDivisionError"
    by auto
  show ?thesis
    by (rule exI [of _ self], rule exI [of _ self2]) (intro conjI self k self2 z)
qed

section \<open>An \<^verbatim>\<open>apply_each\<close> rule in a named system\<close>

text \<open>The flat list of single operators under the name that the source's comment gives
  to such a list, which is also the description of its \<^verbatim>\<open>apply_each\<close> rules.\<close>

definition each_rules :: combination_rules where
  "each_rules =
     [(''trading_station'',
       [(generic_single_name,
         RuleList [(combo_rule [''A'', ''B''] 10)\<lparr>rd_apply_each := Some True\<rparr>])])]"

definition each_example :: "error + WorkplaceOptimizer" where
  "each_example =
     init each_rules [mk_operator ''A'' 2 True, mk_operator ''B'' 0 True] plain_config
       \<lparr>trading_stations = [mk_workplace ''trading_1'' 2], manufacturing_stations = [],
        meeting_room = [mk_workplace ''meeting'' 1], power_station = []\<rparr>"

text \<open>
  Claim C6 at this input: the description of the rule contains the key of its system,
  so the rule is grouped under that name and evaluated by the loop over the named
  systems, which does not read the \<^verbatim>\<open>apply_each\<close> flag. The rule is applied once, to the
  whole listed group: it takes two slots and contributes its synergy of 10 once, where
  two applications of one slot would contribute 20.
\<close>

theorem apply_each_rule_applied_as_group:
  "\<exists>self c result usage shift_used.
     each_example = Inr self \<and>
     first_pass self (mk_workplace ''trading_1'' 2) (by_name (get_available_operators self))
       (initial_state (mk_workplace ''trading_1'' 2) (initial_usage self) {}) = Inr (Some c, 5) \<and>
     apply_each (c_rule c) \<and> c_type c = System \<and> c_slots_used c = 2 \<and>
     c_required c = [''A'', ''B''] \<and>
     optimize_workplace self (mk_workplace ''trading_1'' 2) (initial_usage self) {} =
       Inr (result, usage, shift_used) \<and>
     operator_names result = [''A'', ''B''] \<and>
     applied_combinations result = [generic_single_name] \<and>
     operator_efficiency result = 10"
proof -
  have "map_sum id (\<lambda>self.
          (map_sum id (\<lambda>b. (map_option (\<lambda>c. (apply_each (c_rule c), c_type c, c_slots_used c,
                                                c_required c)) (fst b), snd b))
             (first_pass self (mk_workplace ''trading_1'' 2) (by_name (get_available_operators self))
                (initial_state (mk_workplace ''trading_1'' 2) (initial_usage self) {})),
           map_sum id (\<lambda>r. (operator_names (fst r), applied_combinations (fst r),
                             operator_efficiency (fst r)))
             (optimize_workplace self (mk_workplace ''trading_1'' 2) (initial_usage self) {})))
          each_example =
        Inr (Inr (Some (True, System, 2, [''A'', ''B'']), 5),
             Inr ([''A'', ''B''], [generic_single_name], 10))"
    by code_simp
  from map_sum_InrE [OF this] obtain self where self: "each_example = Inr self"
    and p: "map_sum id (\<lambda>b. (map_option (\<lambda>c. (apply_each (c_rule c), c_type c, c_slots_used c,
                                                c_required c)) (fst b), snd b))
             (first_pass self (mk_workplace ''trading_1'' 2) (by_name (get_available_operators self))
                (initial_state (mk_workplace ''trading_1'' 2) (initial_usage self) {})) =
            Inr (Some (True, System, 2, [''A'', ''B'']), 5)"
    and m: "map_sum id (\<lambda>r. (operator_names (fst r), applied_combinations (fst r),
                             operator_efficiency (fst r)))
             (optimize_workplace self (mk_workplace ''trading_1'' 2) (initial_usage self) {}) =
            Inr ([''A'', ''B''], [generic_single_name], 10)"
    by auto
  from map_sum_InrE [OF p] obtain c where
    fp: "first_pass self (mk_workplace ''trading_1'' 2) (by_name (get_available_operators self))
           (initial_state (mk_workplace ''trading_1'' 2) (initial_usage self) {}) = Inr (Some c, 5)"
    and cf: "apply_each (c_rule c)" "c_type c = System" "c_slots_used c = 2"
            "c_required c = [''A'', ''B'']"
    by (auto simp: prod_eq_iff)
  from map_sum_InrE [OF m] obtain result usage shift_used where
    run: "optimize_workplace self (mk_workplace ''trading_1'' 2) (initial_usage self) {} =
            Inr (result, usage, shift_used)"
    and f: "operator_names result = [''A'', ''B'']"
           "applied_combinations result = [generic_single_name]"
           "operator_efficiency result = 10"
    by auto
  show ?thesis
    by (rule exI [of _ self], rule exI [of _ c], rule exI [of _ result], rule exI [of _ usage],
        rule exI [of _ shift_used]) (intro conjI self fp cf run f)
qed

section \<open>The selection among the candidates\<close>

text \<open>The candidates of an evaluation, as the specification describes them: a rule
  proposes its whole group when every operator is available, the group fits the
  remaining capacity and the eligibility checks of its path pass, at the score of its
  synergy per slot; an \<^verbatim>\<open>apply_each\<close> rule proposes every available and eligible operator
  of its list at the score of its full synergy.\<close>

type_synonym scored = "candidate \<times> rat"

definition group_qualifies ::
  "WorkplaceOptimizer \<Rightarrow> string \<Rightarrow> (string \<rightharpoonup> Operator) \<Rightarrow> alloc_state \<Rightarrow> OperatorEfficiency \<Rightarrow> bool"
where
  "group_qualifies self wtype obn s rule =
     (\<not> list_ex (unavailable self wtype obn s) (operators rule) \<and>
      int (length (operators rule)) \<le> remaining_slots s \<and>
      (case lookup_ops obn (operators rule) of
         Inl e \<Rightarrow> False
       | Inr ops \<Rightarrow> check_elite_requirements ops (elite_requirements rule)) \<and>
      check_control_center_requirements self (requires_control_center rule))"

definition group_candidate :: "candidate_type \<Rightarrow> OperatorEfficiency \<Rightarrow> scored" where
  "group_candidate tag rule =
     (\<lparr>c_type = tag, c_rule = rule, c_required = operators rule,
       c_efficiency = synergy_efficiency rule, c_slots_used = int (length (operators rule))\<rparr>,
      synergy_efficiency rule / of_nat (length (operators rule)))"

definition each_qualifies ::
  "WorkplaceOptimizer \<Rightarrow> string \<Rightarrow> (string \<rightharpoonup> Operator) \<Rightarrow> alloc_state \<Rightarrow> OperatorEfficiency
     \<Rightarrow> string \<Rightarrow> bool"
where
  "each_qualifies self wtype obn s rule name =
     (\<not> unavailable self wtype obn s name \<and>
      (case obn name of
         None \<Rightarrow> False
       | Some op \<Rightarrow> check_elite_requirements [op] (req_elite_of rule name)) \<and>
      check_control_center_requirements self (requires_control_center rule))"

definition each_candidate :: "candidate_type \<Rightarrow> OperatorEfficiency \<Rightarrow> string \<Rightarrow> scored" where
  "each_candidate tag rule name =
     (\<lparr>c_type = tag, c_rule = rule, c_required = [name],
       c_efficiency = synergy_efficiency rule, c_slots_used = 1\<rparr>,
      synergy_efficiency rule)"

definition each_candidates ::
  "WorkplaceOptimizer \<Rightarrow> string \<Rightarrow> (string \<rightharpoonup> Operator) \<Rightarrow> alloc_state \<Rightarrow> candidate_type
     \<Rightarrow> OperatorEfficiency \<Rightarrow> scored list"
where
  "each_candidates self wtype obn s tag rule =
     concat (map (\<lambda>name. if each_qualifies self wtype obn s rule name
                           then [each_candidate tag rule name] else []) (operators rule))"

definition system_candidates ::
  "WorkplaceOptimizer \<Rightarrow> string \<Rightarrow> (string \<rightharpoonup> Operator) \<Rightarrow> alloc_state \<Rightarrow> OperatorEfficiency
     \<Rightarrow> scored list"
where
  "system_candidates self wtype obn s rule =
     (if 0 < remaining_slots s \<and> group_qualifies self wtype obn s rule \<and>
         check_dormitory_requirements self (requires_dormitory rule) \<and>
         check_power_station_requirements self (requires_power_station rule)
      then [group_candidate System rule] else [])"

definition generic_candidates ::
  "WorkplaceOptimizer \<Rightarrow> string \<Rightarrow> (string \<rightharpoonup> Operator) \<Rightarrow> alloc_state \<Rightarrow> OperatorEfficiency
     \<Rightarrow> scored list"
where
  "generic_candidates self wtype obn s rule =
     (if remaining_slots s \<le> 0 then []
      else if apply_each rule then each_candidates self wtype obn s GenericEach rule
      else if group_qualifies self wtype obn s rule then [group_candidate Generic rule]
      else [])"

definition loop_candidates ::
  "WorkplaceOptimizer \<Rightarrow> string \<Rightarrow> (string \<rightharpoonup> Operator) \<Rightarrow> alloc_state \<Rightarrow> OperatorEfficiency
     \<Rightarrow> scored list"
where
  "loop_candidates self wtype obn s rule =
     (if apply_each rule then each_candidates self wtype obn s Each rule
      else if group_qualifies self wtype obn s rule then [group_candidate Normal rule]
      else [])"

text \<open>The candidates of the first evaluation, in the order of evaluation: the named
  systems, then the generic group, whether or not a named system has a candidate. The
  candidates of an iteration of the remaining-slot loop: every matching rule in the
  order of the compiled table.\<close>

definition first_pass_candidates ::
  "WorkplaceOptimizer \<Rightarrow> Workplace \<Rightarrow> (string \<rightharpoonup> Operator) \<Rightarrow> alloc_state \<Rightarrow> scored list" where
  "first_pass_candidates self w obn s =
     concat (map (system_candidates self (get_workplace_type w) obn s) (named_rules self w)) @
     concat (map (generic_candidates self (get_workplace_type w) obn s) (generic_rules self w))"

definition all_candidates :: "WorkplaceOptimizer \<Rightarrow> Workplace \<Rightarrow> alloc_state \<Rightarrow> scored list" where
  "all_candidates self w s =
     concat (map (loop_candidates self (get_workplace_type w)
                    (by_name (get_available_operators self)) s) (all_rules self w))"

text \<open>The winner among scored candidates: none when no score is above the initial -1;
  otherwise the earliest candidate whose score no other candidate exceeds.\<close>

definition is_first_best :: "scored list \<Rightarrow> best \<Rightarrow> bool" where
  "is_first_best cs b =
     (case fst b of
        None \<Rightarrow> snd b = - 1 \<and> list_all (\<lambda>ce. snd ce \<le> - 1) cs
      | Some c \<Rightarrow>
          - 1 < snd b \<and>
          (\<exists>i < length cs.
             cs ! i = (c, snd b) \<and> (\<forall>j < i. snd (cs ! j) < snd b) \<and>
             (\<forall>j < length cs. snd (cs ! j) \<le> snd b)))"

text \<open>The comparison of the source: a candidate replaces the best when its score is
  strictly higher.\<close>

definition keep_better :: "best \<Rightarrow> scored \<Rightarrow> best" where
  "keep_better b ce = (if snd ce > snd b then (Some (fst ce), snd ce) else b)"

lemma is_first_best_SomeI:
  assumes "- 1 < e" and "i < length cs" and "cs ! i = (c, e)"
    and "\<And>j. j < i \<Longrightarrow> snd (cs ! j) < e"
    and "\<And>j. j < length cs \<Longrightarrow> snd (cs ! j) \<le> e"
  shows "is_first_best cs (Some c, e)"
  using assms by (auto simp: is_first_best_def)

lemma foldl_keep_better_first_best: "is_first_best cs (foldl keep_better (None, - 1) cs)"
proof (induction cs rule: rev_induct)
  case Nil
  then show ?case by (simp add: is_first_best_def)
next
  case (snoc ce cs)
  let ?b = "foldl keep_better (None, - 1) cs"
  show ?case
  proof (cases "snd ce > snd ?b")
    case True
    have le: "snd (cs ! j) \<le> snd ?b" if "j < length cs" for j
      using snoc.IH that
      by (cases "fst ?b") (auto simp: is_first_best_def list_all_length)
    have low: "- 1 \<le> snd ?b"
      using snoc.IH by (cases "fst ?b") (auto simp: is_first_best_def)
    have "foldl keep_better (None, - 1) (cs @ [ce]) = (Some (fst ce), snd ce)"
      using True by (simp add: keep_better_def)
    moreover have "is_first_best (cs @ [ce]) (Some (fst ce), snd ce)"
    proof (rule is_first_best_SomeI [where i = "length cs"])
      show "- 1 < snd ce" using True low by simp
      show "length cs < length (cs @ [ce])" by simp
      show "(cs @ [ce]) ! length cs = (fst ce, snd ce)" by simp
      show "snd ((cs @ [ce]) ! j) < snd ce" if "j < length cs" for j
        using le [OF that] True that by (simp add: nth_append)
      show "snd ((cs @ [ce]) ! j) \<le> snd ce" if "j < length (cs @ [ce])" for j
        using le [of j] True that by (cases "j = length cs") (auto simp: nth_append)
    qed
    ultimately show ?thesis by simp
  next
    case False
    then have same: "foldl keep_better (None, - 1) (cs @ [ce]) = ?b"
      by (simp add: keep_better_def)
    show ?thesis
    proof (cases "fst ?b")
      case None
      with snoc.IH False show ?thesis
        unfolding same by (auto simp: is_first_best_def)
    next
      case (Some c)
      with snoc.IH obtain i where i: "i < length cs" "cs ! i = (c, snd ?b)"
        "\<forall>j < i. snd (cs ! j) < snd ?b" "\<forall>j < length cs. snd (cs ! j) \<le> snd ?b"
        and pos: "- 1 < snd ?b"
        by (auto simp: is_first_best_def)
      have "is_first_best (cs @ [ce]) (Some c, snd ?b)"
      proof (rule is_first_best_SomeI [where i = i])
        show "- 1 < snd ?b" by (rule pos)
        show "i < length (cs @ [ce])" using i(1) by simp
        show "(cs @ [ce]) ! i = (c, snd ?b)" using i(1,2) by (simp add: nth_append)
        show "snd ((cs @ [ce]) ! j) < snd ?b" if "j < i" for j
          using that i(1,3) by (simp add: nth_append)
        show "snd ((cs @ [ce]) ! j) \<le> snd ?b" if "j < length (cs @ [ce])" for j
          using that i(4) False by (cases "j = length cs") (auto simp: nth_append)
      qed
      moreover have "?b = (Some c, snd ?b)" using Some by (simp add: prod_eq_iff)
      ultimately show ?thesis unfolding same by simp
    qed
  qed
qed

subsection \<open>The loops compute the running best of their candidates\<close>

lemma fold_err_keep_better:
  assumes "fold_err f xs b = Inr b'"
    and "\<And>b x b'. x \<in> set xs \<Longrightarrow> f b x = Inr b' \<Longrightarrow> b' = foldl keep_better b (cands x)"
  shows "b' = foldl keep_better b (concat (map cands xs))"
  using assms
proof (induction xs arbitrary: b)
  case Nil
  then show ?case by simp
next
  case (Cons x xs)
  from Cons.prems(1) obtain b1 where step: "f b x = Inr b1" and rest: "fold_err f xs b1 = Inr b'"
    by (auto split: sum.splits)
  from Cons.prems(2) [OF _ step] have b1: "b1 = foldl keep_better b (cands x)" by simp
  have "b' = foldl keep_better b1 (concat (map cands xs))"
  proof (rule Cons.IH [OF rest])
    fix c y c'
    assume "y \<in> set xs" "f c y = Inr c'"
    then show "c' = foldl keep_better c (cands y)" using Cons.prems(2) [of y c c'] by simp
  qed
  with b1 show ?case by simp
qed

lemma eval_group_rule_keep_better:
  assumes "eval_group_rule self wtype obn s tag b rule = Inr b'"
  shows "b' = foldl keep_better b
                (if group_qualifies self wtype obn s rule then [group_candidate tag rule] else [])"
  using assms
  by (auto simp: eval_group_rule_def group_qualifies_def group_candidate_def keep_better_def Let_def
           split: if_splits sum.splits)

lemma eval_system_rule_keep_better:
  assumes "eval_system_rule self wtype obn s b rule = Inr b'"
  shows "b' = foldl keep_better b (system_candidates self wtype obn s rule)"
  using assms
  by (auto simp: eval_system_rule_def system_candidates_def group_qualifies_def
                 group_candidate_def keep_better_def Let_def
           split: if_splits sum.splits)

lemma eval_each_op_keep_better:
  assumes "eval_each_op self wtype obn s tag rule b name = Inr b'"
  shows "b' = foldl keep_better b
                (if each_qualifies self wtype obn s rule name
                 then [each_candidate tag rule name] else [])"
  using assms
  by (auto simp: eval_each_op_def each_qualifies_def each_candidate_def keep_better_def
           split: if_splits option.splits)

lemma eval_each_keep_better:
  assumes "fold_err (eval_each_op self wtype obn s tag rule) (operators rule) b = Inr b'"
  shows "b' = foldl keep_better b (each_candidates self wtype obn s tag rule)"
  unfolding each_candidates_def
  using assms by (rule fold_err_keep_better) (rule eval_each_op_keep_better)

lemma eval_rule_keep_better:
  assumes "eval_rule self wtype obn s b rule = Inr b'"
  shows "b' = foldl keep_better b (loop_candidates self wtype obn s rule)"
proof (cases "apply_each rule")
  case True
  with assms eval_each_keep_better [of self wtype obn s Each rule b b'] show ?thesis
    by (simp add: eval_rule_def loop_candidates_def)
next
  case False
  with assms eval_group_rule_keep_better [of self wtype obn s Normal b rule b'] show ?thesis
    by (simp add: eval_rule_def loop_candidates_def)
qed

lemma eval_generic_rule_keep_better:
  assumes "eval_generic_rule self wtype obn s b rule = Inr b'"
  shows "b' = foldl keep_better b (generic_candidates self wtype obn s rule)"
proof (cases "remaining_slots s \<le> 0")
  case True
  with assms show ?thesis by (simp add: eval_generic_rule_def generic_candidates_def)
next
  case pos: False
  show ?thesis
  proof (cases "apply_each rule")
    case True
    with assms pos eval_each_keep_better [of self wtype obn s GenericEach rule b b'] show ?thesis
      by (simp add: eval_generic_rule_def generic_candidates_def)
  next
    case False
    with assms pos eval_group_rule_keep_better [of self wtype obn s Generic b rule b'] show ?thesis
      by (simp add: eval_generic_rule_def generic_candidates_def)
  qed
qed

lemma first_pass_keep_better:
  assumes "first_pass self w obn s = Inr b"
  shows "b = foldl keep_better (None, - 1) (first_pass_candidates self w obn s)"
proof -
  from assms obtain b1 where
    sys: "fold_err (eval_system_rule self (get_workplace_type w) obn s) (named_rules self w)
            (None, - 1) = Inr b1"
    and gen: "fold_err (eval_generic_rule self (get_workplace_type w) obn s) (generic_rules self w)
                b1 = Inr b"
    by (auto simp: first_pass_def split: sum.splits)
  from sys have "b1 = foldl keep_better (None, - 1)
                        (concat (map (system_candidates self (get_workplace_type w) obn s)
                                   (named_rules self w)))"
    by (rule fold_err_keep_better) (rule eval_system_rule_keep_better)
  moreover from gen have "b = foldl keep_better b1
                        (concat (map (generic_candidates self (get_workplace_type w) obn s)
                                   (generic_rules self w)))"
    by (rule fold_err_keep_better) (rule eval_generic_rule_keep_better)
  ultimately show ?thesis by (simp add: first_pass_candidates_def)
qed

lemma evaluate_rules_keep_better:
  assumes "evaluate_rules self w s = Inr b"
  shows "b = foldl keep_better (None, - 1) (all_candidates self w s)"
  unfolding all_candidates_def
  using assms [unfolded evaluate_rules_def]
  by (rule fold_err_keep_better) (rule eval_rule_keep_better)

text \<open>
  Claim C2, as the code has it. In the first step for a workplace the rules of the named
  systems are evaluated first and the generic rules (with one candidate for every
  operator of an \<^verbatim>\<open>apply_each\<close> rule) afterwards, in every case and on the same running
  best; in every later step all matching rules are evaluated in the order of the compiled
  table. The candidate selected has the highest per-slot efficiency of all candidates
  evaluated, and among candidates of that efficiency it is the one evaluated first;
  without a candidate above the initial -1 none is selected.
\<close>

theorem selection_is_first_best:
  "(first_pass self w obn s = Inr b \<longrightarrow> is_first_best (first_pass_candidates self w obn s) b) \<and>
   (evaluate_rules self w s = Inr b' \<longrightarrow> is_first_best (all_candidates self w s) b')"
  using first_pass_keep_better [of self w obn s b] evaluate_rules_keep_better [of self w s b']
        foldl_keep_better_first_best
  by auto

text \<open>A named system with the rule of A and a flat list of single operators that holds
  B, both at synergy 10: the two candidates tie and A, evaluated first, is kept.\<close>

definition tie_example :: "error + WorkplaceOptimizer" where
  "tie_example =
     init [(''trading_station'',
            [(''sysA'', RuleList [combo_rule [''A''] 10]),
             (''singles'', RuleList [(combo_rule [''B''] 10)\<lparr>rd_apply_each := Some True\<rparr>])])]
       [mk_operator ''A'' 2 True, mk_operator ''B'' 0 True] plain_config
       \<lparr>trading_stations = [mk_workplace ''trading_1'' 1], manufacturing_stations = [],
        meeting_room = [mk_workplace ''meeting'' 1], power_station = []\<rparr>"

theorem selection_is_first_best_witness:
  "\<exists>self b b'.
     tie_example = Inr self \<and>
     first_pass self (mk_workplace ''trading_1'' 1) (by_name (get_available_operators self))
       (initial_state (mk_workplace ''trading_1'' 1) (initial_usage self) {}) = Inr b \<and>
     map_option c_required (fst b) = Some [''A''] \<and> snd b = 10 \<and>
     map (\<lambda>ce. (c_required (fst ce), snd ce))
       (first_pass_candidates self (mk_workplace ''trading_1'' 1)
          (by_name (get_available_operators self))
          (initial_state (mk_workplace ''trading_1'' 1) (initial_usage self) {})) =
       [([''A''], 10), ([''B''], 10)] \<and>
     is_first_best
       (first_pass_candidates self (mk_workplace ''trading_1'' 1)
          (by_name (get_available_operators self))
          (initial_state (mk_workplace ''trading_1'' 1) (initial_usage self) {})) b \<and>
     evaluate_rules self (mk_workplace ''trading_1'' 1)
       (initial_state (mk_workplace ''trading_1'' 1) (initial_usage self) {}) = Inr b' \<and>
     is_first_best
       (all_candidates self (mk_workplace ''trading_1'' 1)
          (initial_state (mk_workplace ''trading_1'' 1) (initial_usage self) {})) b'"
proof -
  let ?w = "mk_workplace ''trading_1'' 1"
  have "map_sum id (\<lambda>self.
          (map_sum id (\<lambda>b. (map_option c_required (fst b), snd b))
             (first_pass self ?w (by_name (get_available_operators self))
                (initial_state ?w (initial_usage self) {})),
           map (\<lambda>ce. (c_required (fst ce), snd ce))
             (first_pass_candidates self ?w (by_name (get_available_operators self))
                (initial_state ?w (initial_usage self) {})),
           map_sum id (\<lambda>b. ())
             (evaluate_rules self ?w (initial_state ?w (initial_usage self) {}))))
          tie_example =
        Inr (Inr (Some [''A''], 10), [([''A''], 10), ([''B''], 10)], Inr ())"
    by code_simp
  from map_sum_InrE [OF this] obtain self where self: "tie_example = Inr self"
    and p: "map_sum id (\<lambda>b. (map_option c_required (fst b), snd b))
             (first_pass self ?w (by_name (get_available_operators self))
                (initial_state ?w (initial_usage self) {})) = Inr (Some [''A''], 10)"
    and cs: "map (\<lambda>ce. (c_required (fst ce), snd ce))
             (first_pass_candidates self ?w (by_name (get_available_operators self))
                (initial_state ?w (initial_usage self) {})) = [([''A''], 10), ([''B''], 10)]"
    and e: "map_sum id (\<lambda>b. ())
             (evaluate_rules self ?w (initial_state ?w (initial_usage self) {})) = Inr ()"
    by auto
  from map_sum_InrE [OF p] obtain b where
    fp: "first_pass self ?w (by_name (get_available_operators self))
           (initial_state ?w (initial_usage self) {}) = Inr b"
    and bf: "map_option c_required (fst b) = Some [''A'']" "snd b = 10"
    by auto
  from map_sum_InrE [OF e] obtain b' where
    ev: "evaluate_rules self ?w (initial_state ?w (initial_usage self) {}) = Inr b'"
    by auto
  from selection_is_first_best [of self ?w "by_name (get_available_operators self)"
         "initial_state ?w (initial_usage self) {}" b b'] fp ev
  have f1: "is_first_best
       (first_pass_candidates self ?w (by_name (get_available_operators self))
          (initial_state ?w (initial_usage self) {})) b"
    and f2: "is_first_best (all_candidates self ?w (initial_state ?w (initial_usage self) {})) b'"
    by simp_all
  show ?thesis
    by (rule exI [of _ self], rule exI [of _ b], rule exI [of _ b'])
       (intro conjI self fp bf cs f1 ev f2)
qed

text \<open>The counterexample to C2 as it is stated: the rule of the named system qualifies
  with A at 10 per slot, the generic rules are evaluated all the same, and B at 20 per
  slot is selected and assigned.\<close>

definition fallback_example :: "error + WorkplaceOptimizer" where
  "fallback_example =
     init [(''trading_station'',
            [(''sysA'', RuleList [combo_rule [''A''] 10]),
             (''singles'', RuleList [(combo_rule [''B''] 20)\<lparr>rd_apply_each := Some True\<rparr>])])]
       [mk_operator ''A'' 2 True, mk_operator ''B'' 0 True] plain_config
       \<lparr>trading_stations = [mk_workplace ''trading_1'' 1], manufacturing_stations = [],
        meeting_room = [mk_workplace ''meeting'' 1], power_station = []\<rparr>"

theorem generic_rule_beats_named_system_counterexample:
  "\<exists>self c0 c result usage shift_used.
     fallback_example = Inr self \<and>
     fold_err (eval_system_rule self ''trading_station'' (by_name (get_available_operators self))
                 (initial_state (mk_workplace ''trading_1'' 1) (initial_usage self) {}))
       (named_rules self (mk_workplace ''trading_1'' 1)) (None, - 1) = Inr (Some c0, 10) \<and>
     c_required c0 = [''A''] \<and>
     first_pass self (mk_workplace ''trading_1'' 1) (by_name (get_available_operators self))
       (initial_state (mk_workplace ''trading_1'' 1) (initial_usage self) {}) = Inr (Some c, 20) \<and>
     c_type c = GenericEach \<and> c_required c = [''B''] \<and>
     optimize_workplace self (mk_workplace ''trading_1'' 1) (initial_usage self) {} =
       Inr (result, usage, shift_used) \<and>
     operator_names result = [''B'']"
proof -
  let ?w = "mk_workplace ''trading_1'' 1"
  have "map_sum id (\<lambda>self.
          (map_sum id (\<lambda>b. (map_option c_required (fst b), snd b))
             (fold_err (eval_system_rule self ''trading_station''
                          (by_name (get_available_operators self))
                          (initial_state ?w (initial_usage self) {}))
                (named_rules self ?w) (None, - 1)),
           map_sum id (\<lambda>b. (map_option (\<lambda>c. (c_type c, c_required c)) (fst b), snd b))
             (first_pass self ?w (by_name (get_available_operators self))
                (initial_state ?w (initial_usage self) {})),
           map_sum id (\<lambda>r. operator_names (fst r))
             (optimize_workplace self ?w (initial_usage self) {})))
          fallback_example =
        Inr (Inr (Some [''A''], 10), Inr (Some (GenericEach, [''B'']), 20), Inr [''B''])"
    by code_simp
  from map_sum_InrE [OF this] obtain self where self: "fallback_example = Inr self"
    and n: "map_sum id (\<lambda>b. (map_option c_required (fst b), snd b))
             (fold_err (eval_system_rule self ''trading_station''
                          (by_name (get_available_operators self))
                          (initial_state ?w (initial_usage self) {}))
                (named_rules self ?w) (None, - 1)) = Inr (Some [''A''], 10)"
    and p: "map_sum id (\<lambda>b. (map_option (\<lambda>c. (c_type c, c_required c)) (fst b), snd b))
             (first_pass self ?w (by_name (get_available_operators self))
                (initial_state ?w (initial_usage self) {})) =
            Inr (Some (GenericEach, [''B'']), 20)"
    and o: "map_sum id (\<lambda>r. operator_names (fst r))
             (optimize_workplace self ?w (initial_usage self) {}) = Inr [''B'']"
    by auto
  from map_sum_InrE [OF n] obtain c0 where
    named: "fold_err (eval_system_rule self ''trading_station''
                        (by_name (get_available_operators self))
                        (initial_state ?w (initial_usage self) {}))
              (named_rules self ?w) (None, - 1) = Inr (Some c0, 10)"
    and c0: "c_required c0 = [''A'']"
    by (auto simp: prod_eq_iff)
  from map_sum_InrE [OF p] obtain c where
    fp: "first_pass self ?w (by_name (get_available_operators self))
           (initial_state ?w (initial_usage self) {}) = Inr (Some c, 20)"
    and c: "c_type c = GenericEach" "c_required c = [''B'']"
    by (auto simp: prod_eq_iff)
  from map_sum_InrE [OF o] obtain result usage shift_used where
    run: "optimize_workplace self ?w (initial_usage self) {} = Inr (result, usage, shift_used)"
    and names: "operator_names result = [''B'']"
    by auto
  show ?thesis
    by (rule exI [of _ self], rule exI [of _ c0], rule exI [of _ c], rule exI [of _ result],
        rule exI [of _ usage], rule exI [of _ shift_used])
       (intro conjI self named c0 fp c run names)
qed

end
